theory Spec2Isabelle
  imports Main "HOL-Library.Word" "HOL-Library.AList"
begin

section \<open>Values of the JavaScript runtime\<close>

text \<open>
  The challenge protocol (\<^verbatim>\<open>utils.js\<close>, namespace \<^verbatim>\<open>Utils\<close>) and the query builder
  (\<^verbatim>\<open>call_builder.ts\<close>) are embedded as HOL functions. Exceptions are values of the sum
  type \<open>error + 'a\<close>; the clock reading \<^verbatim>\<open>Math.floor(Date.now() / 1000)\<close>, the
  entropy behind \<^verbatim>\<open>randombytes\<close> and the HTTP peer are explicit arguments.
\<close>

type_synonym bytes = "8 word list"

text \<open>
  JSON documents, and the two kinds of closure the query builder stores in them.
\<close>

datatype jsval =
    JUndefined
  | JNull
  | JBool bool
  | JNum int
  | JStr string
  | JArr "jsval list"
  | JObj "(string \<times> jsval) list"
  | JEmbedded jsval
  | JRequestFn jsval

datatype error =
    InvalidSep10ChallengeError string
  | TypeError string
  | BadRequestError string "string list list"
  | NotFoundError string jsval
  | NetworkError string jsval
  | Error string

subsection \<open>\<^verbatim>\<open>Number.parseInt(s, 10)\<close> and decimal rendering\<close>

text \<open>
  \<^verbatim>\<open>Number.parseInt\<close> skips leading white space, reads an optional sign and then the
  longest prefix of decimal digits; with no digit the result is \<^verbatim>\<open>NaN\<close>, here \<open>None\<close>.
  Numbers are exact integers here: the source compares values of second-resolution
  clocks, far below the range where a double stops being exact.
\<close>

definition isWhiteSpace :: "char \<Rightarrow> bool" where
  "isWhiteSpace c = (of_char c \<in> {9::nat, 10, 11, 12, 13, 32})"

definition isDigit :: "char \<Rightarrow> bool" where
  "isDigit c = (48 \<le> (of_char c :: nat) \<and> (of_char c :: nat) \<le> 57)"

definition digitValue :: "char \<Rightarrow> nat" where
  "digitValue c = of_char c - 48"

definition digitsValue :: "string \<Rightarrow> nat" where
  "digitsValue s = foldl (\<lambda>acc c. 10 * acc + digitValue c) 0 s"

definition parseDigits :: "string \<Rightarrow> int option" where
  "parseDigits s =
     (let z = takeWhile isDigit s
      in if z = [] then None else Some (int (digitsValue z)))"

definition parseInt10 :: "string \<Rightarrow> int option" where
  "parseInt10 str =
     (case dropWhile isWhiteSpace str of
        [] \<Rightarrow> None
      | c # rest \<Rightarrow>
          if c = CHR ''-'' then map_option uminus (parseDigits rest)
          else if c = CHR ''+'' then parseDigits rest
          else parseDigits (c # rest))"

definition digitChar :: "nat \<Rightarrow> char" where
  "digitChar d = char_of (48 + d)"

function decimal :: "nat \<Rightarrow> string" where
  "decimal n = (if n < 10 then [digitChar n] else decimal (n div 10) @ [digitChar (n mod 10)])"
  by pat_completeness auto
termination
  by (relation "measure id") auto

declare decimal.simps [simp del]

definition decimalInt :: "int \<Rightarrow> string" where
  "decimalInt i = (if i < 0 then CHR ''-'' # decimal (nat (- i)) else decimal (nat i))"

subsection \<open>The runtime's base64 codec\<close>

text \<open>
  \<^verbatim>\<open>buf.toString("base64")\<close> and \<^verbatim>\<open>Buffer.from(s, "base64")\<close> belong to the runtime,
  not to the repository. They are written out as the RFC 4648 codec: the encoder pads
  with \<^verbatim>\<open>=\<close>; the decoder accepts the URL-safe letters as well, ignores characters
  outside the alphabet and stops at the first \<^verbatim>\<open>=\<close>.
\<close>

definition base64Alphabet :: string where
  "base64Alphabet = ''ABCDEFGHIJKLMNOPQRSTUVWXYZabcdefghijklmnopqrstuvwxyz0123456789+/''"

definition base64Char :: "nat \<Rightarrow> char" where
  "base64Char n = base64Alphabet ! n"

definition unbase64 :: "char \<Rightarrow> nat option" where
  "unbase64 c =
     (if c = CHR ''-'' then Some 62 else if c = CHR ''_'' then Some 63
      else map_of (zip base64Alphabet [0..<64]) c)"

text \<open>Three bytes make four six-bit groups; \<open>x\<close>, \<open>y\<close>, \<open>z\<close> are the byte values.\<close>

definition sextet0 :: "nat \<Rightarrow> nat" where
  "sextet0 x = x div 4"

definition sextet1 :: "nat \<Rightarrow> nat \<Rightarrow> nat" where
  "sextet1 x y = (x mod 4) * 16 + y div 16"

definition sextet2 :: "nat \<Rightarrow> nat \<Rightarrow> nat" where
  "sextet2 y z = (y mod 16) * 4 + z div 64"

definition sextet3 :: "nat \<Rightarrow> nat" where
  "sextet3 z = z mod 64"

fun Buffer_toString_base64 :: "bytes \<Rightarrow> string" where
  "Buffer_toString_base64 (a # b # c # rest) =
     [base64Char (sextet0 (unat a)), base64Char (sextet1 (unat a) (unat b)),
      base64Char (sextet2 (unat b) (unat c)), base64Char (sextet3 (unat c))]
     @ Buffer_toString_base64 rest"
| "Buffer_toString_base64 [a, b] =
     [base64Char (sextet0 (unat a)), base64Char (sextet1 (unat a) (unat b)),
      base64Char (sextet2 (unat b) 0), CHR ''='']"
| "Buffer_toString_base64 [a] =
     [base64Char (sextet0 (unat a)), base64Char (sextet1 (unat a) 0), CHR ''='', CHR ''='']"
| "Buffer_toString_base64 [] = []"

definition octet0 :: "nat \<Rightarrow> nat \<Rightarrow> 8 word" where
  "octet0 p q = of_nat (p * 4 + q div 16)"

definition octet1 :: "nat \<Rightarrow> nat \<Rightarrow> 8 word" where
  "octet1 q r = of_nat ((q mod 16) * 16 + r div 4)"

definition octet2 :: "nat \<Rightarrow> nat \<Rightarrow> 8 word" where
  "octet2 r s = of_nat ((r mod 4) * 64 + s)"

fun decodeSextets :: "nat list \<Rightarrow> bytes" where
  "decodeSextets (p # q # r # s # rest) =
     [octet0 p q, octet1 q r, octet2 r s] @ decodeSextets rest"
| "decodeSextets [p, q, r] = [octet0 p q, octet1 q r]"
| "decodeSextets [p, q] = [octet0 p q]"
| "decodeSextets _ = []"

definition sextetsOf :: "string \<Rightarrow> nat list" where
  "sextetsOf s = List.map_filter unbase64 (takeWhile (\<lambda>c. c \<noteq> CHR ''='') s)"

definition Buffer_from_base64 :: "string \<Rightarrow> bytes" where
  "Buffer_from_base64 s = decodeSextets (sextetsOf s)"

text \<open>\<^verbatim>\<open>randombytes(n)\<close>: the first \<open>n\<close> bytes of the entropy source.\<close>

definition randombytes :: "(nat \<Rightarrow> 8 word) \<Rightarrow> nat \<Rightarrow> bytes" where
  "randombytes entropy n = map entropy [0..<n]"

section \<open>Challenge protocol (\<^verbatim>\<open>Utils\<close>)\<close>

subsection \<open>Transactions as the ledger client library exposes them\<close>

text \<open>
  The fields the source reads from a decoded \<^verbatim>\<open>Transaction\<close>. The library renders the
  sequence number and the time bounds as decimal strings; an operation is an object whose
  \<^verbatim>\<open>source\<close>, \<^verbatim>\<open>name\<close> and \<^verbatim>\<open>value\<close> may be \<^verbatim>\<open>undefined\<close> (\<open>None\<close>). A \<^verbatim>\<open>value\<close> buffer is
  kept as the string its \<^verbatim>\<open>toString()\<close> yields.
\<close>

record DecoratedSignature =
  hint :: bytes
  signature :: bytes

record TimeBounds =
  minTime :: string
  maxTime :: string

record Operation =
  op_type :: string
  op_source :: "string option"
  op_name :: "string option"
  op_value :: "string option"

record Transaction =
  source :: string
  sequence :: string
  fee :: nat
  timeBounds :: "TimeBounds option"
  operations :: "Operation list"
  signatures :: "DecoratedSignature list"
  networkPassphrase :: string

record Account =
  accountId :: string
  sequenceNumber :: string

text \<open>
  The cryptographic side of the library is a parameter: key pairs of any type \<open>'k\<close>,
  \<^verbatim>\<open>keypair.publicKey()\<close>, \<^verbatim>\<open>Keypair.fromPublicKey(id)\<close>, \<^verbatim>\<open>keypair.signDecorated(data)\<close>,
  \<^verbatim>\<open>keypair.verify(data, signature)\<close> and the hash of a transaction's signature base.
  \<^verbatim>\<open>Keypair.fromPublicKey\<close> throws on a string that is not an encoded public key, and
  \<^verbatim>\<open>keypair.verify\<close> may throw on a malformed signature: \<open>Inl message\<close> is such a throw.
  What the library throws is an \<^verbatim>\<open>Error\<close> of its own with that message; the class
  \<^verbatim>\<open>InvalidSep10ChallengeError\<close> belongs to the package under study and is unknown to it.
\<close>

record 'k StellarBase =
  Keypair_publicKey :: "'k \<Rightarrow> string"
  Keypair_fromPublicKey :: "string \<Rightarrow> string + 'k"
  Keypair_signDecorated :: "'k \<Rightarrow> bytes \<Rightarrow> DecoratedSignature"
  Keypair_verify :: "'k \<Rightarrow> bytes \<Rightarrow> bytes \<Rightarrow> string + bool"
  signatureBaseHash :: "Transaction \<Rightarrow> bytes"

text \<open>
  Modelled from the spec: the ledger client library (\<^verbatim>\<open>stellar-base\<close>) is not part of the
  source tree. \<^verbatim>\<open>transaction.hash()\<close> is the content hash under the network identifier:
  it covers every field but the signatures.
\<close>

definition Transaction_hash :: "'k StellarBase \<Rightarrow> Transaction \<Rightarrow> bytes" where
  "Transaction_hash lib tx = signatureBaseHash lib (tx\<lparr>signatures := []\<rparr>)"

text \<open>
  Modelled from the spec: \<^verbatim>\<open>transaction.sign(keypair)\<close> of the library appends the key
  pair's signature of the transaction hash.
\<close>

definition Transaction_sign :: "'k StellarBase \<Rightarrow> 'k \<Rightarrow> Transaction \<Rightarrow> Transaction" where
  "Transaction_sign lib keypair tx =
     tx\<lparr>signatures := signatures tx @ [Keypair_signDecorated lib keypair (Transaction_hash lib tx)]\<rparr>"

text \<open>
  Modelled from the spec: \<^verbatim>\<open>Operation.manageData({name, value, source})\<close> of the library,
  the metadata-write operation.
\<close>

definition Operation_manageData :: "string \<Rightarrow> string \<Rightarrow> string \<Rightarrow> Operation" where
  "Operation_manageData name val src =
     \<lparr>op_type = ''manageData'', op_source = Some src, op_name = Some name, op_value = Some val\<rparr>"

definition BASE_FEE :: nat where
  "BASE_FEE = 100"

text \<open>
  Modelled from the spec: \<^verbatim>\<open>new TransactionBuilder(account, opts).addOperation(op).build()\<close>
  of the library. The built transaction takes the account's sequence number plus one (the
  repository's tests read \<^verbatim>\<open>"0"\<close> back from an account created at \<^verbatim>\<open>"-1"\<close>) and the time
  bounds in decimal.
\<close>

definition TransactionBuilder_build ::
  "Account \<Rightarrow> nat \<Rightarrow> string \<Rightarrow> nat \<times> nat \<Rightarrow> Operation list \<Rightarrow> Transaction" where
  "TransactionBuilder_build account fee' passphrase timebounds ops =
     \<lparr>source = accountId account,
      sequence = (case parseInt10 (sequenceNumber account) of
                    None \<Rightarrow> ''NaN'' | Some i \<Rightarrow> decimalInt (i + 1)),
      fee = fee',
      timeBounds = Some \<lparr>minTime = decimal (fst timebounds), maxTime = decimal (snd timebounds)\<rparr>,
      operations = ops,
      signatures = [],
      networkPassphrase = passphrase\<rparr>"

text \<open>
  Modelled from the spec: the wire envelope (\<^verbatim>\<open>toEnvelope().toXDR("base64")\<close>) and its
  decoding (\<^verbatim>\<open>new Transaction(envelope, networkPassphrase)\<close>). The envelope is kept as the
  transaction it encodes; it does not carry the network identifier, which the decoder
  takes from its caller.
\<close>

definition toEnvelopeXDR :: "Transaction \<Rightarrow> Transaction" where
  "toEnvelopeXDR tx = tx\<lparr>networkPassphrase := []\<rparr>"

definition Transaction_fromEnvelope :: "Transaction \<Rightarrow> string \<Rightarrow> Transaction" where
  "Transaction_fromEnvelope envelope passphrase = envelope\<lparr>networkPassphrase := passphrase\<rparr>"

subsection \<open>The source functions\<close>

text \<open>\<^verbatim>\<open>buildChallengeTx\<close>; an absent \<^verbatim>\<open>timeout\<close> argument (\<open>None\<close>) is 300.\<close>

definition buildChallengeTx ::
  "'k StellarBase \<Rightarrow> (nat \<Rightarrow> 8 word) \<Rightarrow> nat \<Rightarrow> 'k \<Rightarrow> string \<Rightarrow> string \<Rightarrow> nat option \<Rightarrow> string
   \<Rightarrow> Transaction" where
  "buildChallengeTx lib entropy now serverKeypair clientAccountID anchorName timeout passphrase =
     (let timeout' = (case timeout of None \<Rightarrow> 300 | Some t \<Rightarrow> t);
          account = \<lparr>accountId = Keypair_publicKey lib serverKeypair, sequenceNumber = ''-1''\<rparr>;
          val = Buffer_toString_base64 (randombytes entropy 48);
          transaction =
            TransactionBuilder_build account BASE_FEE passphrase (now, now + timeout')
              [Operation_manageData (anchorName @ '' auth'') val clientAccountID];
          transaction' = Transaction_sign lib serverKeypair transaction
      in toEnvelopeXDR transaction')"

text \<open>
  \<^verbatim>\<open>Array.prototype.find\<close> with a callback that may throw: the elements are tried in
  order up to the first one the callback accepts, and a throw of the callback ends the
  search.
\<close>

fun Array_find :: "('a \<Rightarrow> string + bool) \<Rightarrow> 'a list \<Rightarrow> string + 'a option" where
  "Array_find callback [] = Inr None"
| "Array_find callback (x # xs) =
     (case callback x of
        Inl message \<Rightarrow> Inl message
      | Inr accepted \<Rightarrow> if accepted then Inr (Some x) else Array_find callback xs)"

text \<open>
  \<^verbatim>\<open>verifyTxSignedBy\<close>: \<^verbatim>\<open>!!transaction.signatures.find(...)\<close>. The source has no
  \<^verbatim>\<open>try\<close>: what the key import or a signature check throws leaves the function.
\<close>

definition verifyTxSignedBy :: "'k StellarBase \<Rightarrow> Transaction \<Rightarrow> string \<Rightarrow> error + bool" where
  "verifyTxSignedBy lib transaction accountId' =
     (let hashedSignatureBase = Transaction_hash lib transaction
      in case Keypair_fromPublicKey lib accountId' of
           Inl message \<Rightarrow> Inl (Error message)
         | Inr keypair \<Rightarrow>
             (case Array_find
                     (\<lambda>sig. Keypair_verify lib keypair hashedSignatureBase (signature sig))
                     (signatures transaction) of
                Inl message \<Rightarrow> Inl (Error message)
              | Inr found \<Rightarrow> Inr (found \<noteq> None)))"

text \<open>
  \<^verbatim>\<open>validateTimebounds\<close>; a comparison with \<^verbatim>\<open>NaN\<close> is false.
\<close>

definition validateTimebounds :: "nat \<Rightarrow> Transaction \<Rightarrow> bool" where
  "validateTimebounds now transaction =
     (case timeBounds transaction of
        None \<Rightarrow> False
      | Some tb \<Rightarrow>
          (case (parseInt10 (minTime tb), parseInt10 (maxTime tb)) of
             (Some lo, Some hi) \<Rightarrow> int now \<ge> lo \<and> int now \<le> hi
           | _ \<Rightarrow> False))"

definition msgSequence :: string where
  "msgSequence = ''The transaction sequence number should be zero''"

definition msgSource :: string where
  "msgSource = ''The transaction source account is not equal to the server's account''"

definition msgOneOperation :: string where
  "msgOneOperation = ''The transaction should contain only one operation''"

definition msgOperationSource :: string where
  "msgOperationSource = ''The transaction's operation should contain a source account''"

definition msgManageData :: string where
  "msgManageData = ''The transaction's operation should be manageData''"

definition msgValueLength :: string where
  "msgValueLength =
     ''The transaction's operation value should be a 64 bytes base64 random string''"

definition msgServerSignature :: string where
  "msgServerSignature = ''The transaction is not signed by the server''"

definition msgClientSignature :: string where
  "msgClientSignature = ''The transaction is not signed by the client''"

definition msgExpired :: string where
  "msgExpired = ''The transaction has expired''"

text \<open>\<^verbatim>\<open>!operation.source\<close>: an absent source and the empty string are both falsy.\<close>

definition sourceMissing :: "Operation \<Rightarrow> bool" where
  "sourceMissing operation = (case op_source operation of None \<Rightarrow> True | Some s \<Rightarrow> s = [])"

text \<open>
  \<^verbatim>\<open>verifyChallengeTx\<close>. Reading \<^verbatim>\<open>operation.value.toString()\<close> of an operation without a
  value raises the runtime's \<^verbatim>\<open>TypeError\<close>; what \<^verbatim>\<open>verifyTxSignedBy\<close> throws is not caught.
\<close>

definition verifyChallengeTx ::
  "'k StellarBase \<Rightarrow> nat \<Rightarrow> Transaction \<Rightarrow> string \<Rightarrow> string \<Rightarrow> error + bool" where
  "verifyChallengeTx lib now challengeTx serverAccountId passphrase =
     (let transaction = Transaction_fromEnvelope challengeTx passphrase;
          sequence' = parseInt10 (sequence transaction)
      in if sequence' \<noteq> Some 0 then Inl (InvalidSep10ChallengeError msgSequence)
         else if source transaction \<noteq> serverAccountId
           then Inl (InvalidSep10ChallengeError msgSource)
         else if length (operations transaction) \<noteq> 1
           then Inl (InvalidSep10ChallengeError msgOneOperation)
         else
           (let operation = hd (operations transaction)
            in if sourceMissing operation
                 then Inl (InvalidSep10ChallengeError msgOperationSource)
               else if op_type operation \<noteq> ''manageData''
                 then Inl (InvalidSep10ChallengeError msgManageData)
               else
                 (case op_value operation of
                    None \<Rightarrow> Inl (TypeError ''Cannot read property 'toString' of undefined'')
                  | Some v \<Rightarrow>
                      if length (Buffer_from_base64 v) \<noteq> 48
                        then Inl (InvalidSep10ChallengeError msgValueLength)
                      else
                        (case verifyTxSignedBy lib transaction serverAccountId of
                           Inl e \<Rightarrow> Inl e
                         | Inr signedByServer \<Rightarrow>
                             if \<not> signedByServer
                               then Inl (InvalidSep10ChallengeError msgServerSignature)
                             else
                               (case verifyTxSignedBy lib transaction
                                       (the (op_source operation)) of
                                  Inl e \<Rightarrow> Inl e
                                | Inr signedByClient \<Rightarrow>
                                    if \<not> signedByClient
                                      then Inl (InvalidSep10ChallengeError msgClientSignature)
                                    else if \<not> validateTimebounds now transaction
                                      then Inl (InvalidSep10ChallengeError msgExpired)
                                    else Inr True)))))"

subsection \<open>The nine checks as the specification lists them\<close>

text \<open>
  The specification's reading of \<^verbatim>\<open>verify_challenge\<close>: nine checks in a fixed order, each
  with its reason; the result is \<open>true\<close> when all hold and otherwise the reason of the first
  one that fails. This definition follows the specification, not the source.
\<close>

definition onOperation :: "Transaction \<Rightarrow> (Operation \<Rightarrow> bool) \<Rightarrow> bool" where
  "onOperation tx P = (case operations tx of [] \<Rightarrow> False | operation # _ \<Rightarrow> P operation)"

definition challengeChecks ::
  "'k StellarBase \<Rightarrow> nat \<Rightarrow> Transaction \<Rightarrow> string \<Rightarrow> string \<Rightarrow> (bool \<times> string) list" where
  "challengeChecks lib now challengeTx serverAccountId passphrase =
     (let tx = Transaction_fromEnvelope challengeTx passphrase
      in [(parseInt10 (sequence tx) = Some 0, msgSequence),
          (source tx = serverAccountId, msgSource),
          (length (operations tx) = 1, msgOneOperation),
          (onOperation tx (\<lambda>operation. \<not> sourceMissing operation), msgOperationSource),
          (onOperation tx (\<lambda>operation. op_type operation = ''manageData''), msgManageData),
          (onOperation tx (\<lambda>operation.
             case op_value operation of
               None \<Rightarrow> False
             | Some v \<Rightarrow> length (Buffer_from_base64 v) = 48), msgValueLength),
          (verifyTxSignedBy lib tx serverAccountId = Inr True, msgServerSignature),
          (onOperation tx (\<lambda>operation.
             case op_source operation of
               None \<Rightarrow> False
             | Some client \<Rightarrow> verifyTxSignedBy lib tx client = Inr True), msgClientSignature),
          (validateTimebounds now tx, msgExpired)])"

definition firstFailure :: "(bool \<times> string) list \<Rightarrow> string option" where
  "firstFailure checks = map_option snd (find (\<lambda>c. \<not> fst c) checks)"

definition verify_challenge_spec ::
  "'k StellarBase \<Rightarrow> nat \<Rightarrow> Transaction \<Rightarrow> string \<Rightarrow> string \<Rightarrow> error + bool" where
  "verify_challenge_spec lib now challengeTx serverAccountId passphrase =
     (case firstFailure (challengeChecks lib now challengeTx serverAccountId passphrase) of
        None \<Rightarrow> Inr True
      | Some reason \<Rightarrow> Inl (InvalidSep10ChallengeError reason))"

subsection \<open>A reference instance of the library\<close>

text \<open>
  For concrete runs the library parameter is instantiated with a symbolic signature
  scheme. A key pair is its account id, and the account ids are the strings that begin
  with \<open>G\<close>: importing any other string throws. The hash is a digest of 32 bytes over
  the fields it covers, spelled out. A signature has 64 bytes, the signer's id and the
  signed data, each cut or filled up to 32 bytes; checking a signature of another length
  throws.
\<close>

definition bytesOf :: "string \<Rightarrow> bytes" where
  "bytesOf s = map (\<lambda>c. of_nat (of_char c)) s"

definition pad32 :: "bytes \<Rightarrow> bytes" where
  "pad32 bs = take 32 (bs @ replicate 32 0)"

text \<open>Each byte is added into a ring of 32 sums.\<close>

fun refDigest :: "bytes \<Rightarrow> bytes \<Rightarrow> bytes" where
  "refDigest sums [] = sums"
| "refDigest sums (b # bs) = refDigest (tl sums @ [hd sums + b]) bs"

definition refHash :: "Transaction \<Rightarrow> bytes" where
  "refHash tx =
     refDigest (replicate 32 0)
       (bytesOf (networkPassphrase tx @ ''|'' @ source tx @ ''|'' @ sequence tx @ ''|''
         @ decimal (fee tx) @ ''|''
         @ (case timeBounds tx of None \<Rightarrow> [] | Some tb \<Rightarrow> minTime tb @ ''-'' @ maxTime tb)
         @ concat (map (\<lambda>operation.
             ''|'' @ op_type operation
             @ ''|'' @ (case op_source operation of None \<Rightarrow> [] | Some s \<Rightarrow> s)
             @ ''|'' @ (case op_name operation of None \<Rightarrow> [] | Some n \<Rightarrow> n)
             @ ''|'' @ (case op_value operation of None \<Rightarrow> [] | Some v \<Rightarrow> v))
             (operations tx))))"

definition refLib :: "string StellarBase" where
  "refLib =
     \<lparr>Keypair_publicKey = (\<lambda>k. k),
      Keypair_fromPublicKey = (\<lambda>accountId'.
        if accountId' \<noteq> [] \<and> hd accountId' = CHR ''G'' then Inr accountId'
        else Inl ''invalid encoded string''),
      Keypair_signDecorated = (\<lambda>k data.
        \<lparr>hint = [], signature = pad32 (bytesOf k) @ pad32 data\<rparr>),
      Keypair_verify = (\<lambda>k data sig.
        if length sig \<noteq> 64 then Inl ''bad signature size''
        else Inr (sig = pad32 (bytesOf k) @ pad32 data)),
      signatureBaseHash = refHash\<rparr>"

definition refEntropy :: "nat \<Rightarrow> 8 word" where
  "refEntropy i = of_nat (7 * i + 3)"

definition refNetwork :: string where
  "refNetwork = ''Test SDF Network ; September 2015''"

definition refChallenge :: Transaction where
  "refChallenge =
     buildChallengeTx refLib refEntropy 1000 ''GSERVER'' ''GCLIENT'' ''SDF'' (Some 300) refNetwork"

text \<open>The client decodes the challenge, signs it and returns the envelope.\<close>

definition clientSigns :: "'k StellarBase \<Rightarrow> 'k \<Rightarrow> string \<Rightarrow> Transaction \<Rightarrow> Transaction" where
  "clientSigns lib clientKeypair passphrase challenge =
     toEnvelopeXDR (Transaction_sign lib clientKeypair (Transaction_fromEnvelope challenge passphrase))"

definition refSigned :: Transaction where
  "refSigned = clientSigns refLib ''GCLIENT'' refNetwork refChallenge"

definition deleteEntryOperation :: Operation where
  "deleteEntryOperation =
     \<lparr>op_type = ''manageData'', op_source = Some ''GCLIENT'', op_name = Some ''SDF auth'',
      op_value = None\<rparr>"

definition noValueChallenge :: Transaction where
  "noValueChallenge =
     clientSigns refLib ''GCLIENT'' refNetwork
       (toEnvelopeXDR (Transaction_sign refLib ''GSERVER''
          (TransactionBuilder_build \<lparr>accountId = ''GSERVER'', sequenceNumber = ''-1''\<rparr>
             BASE_FEE refNetwork (1000, 1300) [deleteEntryOperation])))"

definition shortValueOperation :: Operation where
  "shortValueOperation =
     \<lparr>op_type = ''manageData'', op_source = Some ''GCLIENT'', op_name = Some ''SDF auth'',
      op_value = Some (Buffer_toString_base64 (randombytes refEntropy 47))\<rparr>"

definition shortValueChallenge :: Transaction where
  "shortValueChallenge = refSigned\<lparr>operations := [shortValueOperation]\<rparr>"

definition selfChallenge :: Transaction where
  "selfChallenge =
     buildChallengeTx refLib refEntropy 1000 ''GSERVER'' ''GSERVER'' ''SDF'' (Some 300) refNetwork"

text \<open>
  The signed challenge as the verifier decodes it, and the same transaction with a
  signature of three bytes in front of the others.
\<close>

definition refDecoded :: Transaction where
  "refDecoded = Transaction_fromEnvelope refSigned refNetwork"

definition malformedSignature :: DecoratedSignature where
  "malformedSignature = \<lparr>hint = [], signature = [1, 2, 3]\<rparr>"

definition refMalformed :: Transaction where
  "refMalformed = refDecoded\<lparr>signatures := malformedSignature # signatures refDecoded\<rparr>"

definition malformedChallenge :: Transaction where
  "malformedChallenge = refSigned\<lparr>signatures := malformedSignature # signatures refSigned\<rparr>"

section \<open>Query builder (\<^verbatim>\<open>CallBuilder\<close>)\<close>

subsection \<open>Property access on JSON values\<close>

text \<open>
  A parsed JSON object is an association list with each key once; a property read finds
  the first binding, an assignment (\<open>AList.update\<close>) replaces it in place or appends a
  new one, and \<^verbatim>\<open>Object.keys\<close> lists each key once. Arrays and strings have their
  indices as keys. \<open>JEmbedded record\<close> stands for the closure \<^verbatim>\<open>async () => record\<close>
  and \<open>JRequestFn link\<close> for the closure \<^verbatim>\<open>_requestFnForLink(link)\<close> returns.
\<close>

primrec weight :: "jsval \<Rightarrow> nat" where
  "weight JUndefined = 0"
| "weight JNull = 0"
| "weight (JBool b) = 0"
| "weight (JNum n) = 0"
| "weight (JStr s) = 1"
| "weight (JArr xs) = Suc (sum_list (map weight xs))"
| "weight (JObj fs) = Suc (sum_list (map snd (map (map_prod id weight) fs)))"
| "weight (JEmbedded r) = 0"
| "weight (JRequestFn l) = 0"

definition lookup :: "(string \<times> jsval) list \<Rightarrow> string \<Rightarrow> jsval" where
  "lookup fs k = (case map_of fs k of None \<Rightarrow> JUndefined | Some v \<Rightarrow> v)"

fun Object_entries :: "jsval \<Rightarrow> (string \<times> jsval) list" where
  "Object_entries (JObj fs) = fs"
| "Object_entries (JArr xs) = zip (map decimal [0..<length xs]) xs"
| "Object_entries (JStr s) = zip (map decimal [0..<length s]) (map (\<lambda>c. JStr [c]) s)"
| "Object_entries _ = []"

definition Object_keys :: "jsval \<Rightarrow> string list" where
  "Object_keys v = remdups (map fst (Object_entries v))"

definition getProp :: "jsval \<Rightarrow> string \<Rightarrow> jsval" where
  "getProp v k = lookup (Object_entries v) k"

definition setProp :: "jsval \<Rightarrow> string \<Rightarrow> jsval \<Rightarrow> jsval" where
  "setProp v k x = (case v of JObj fs \<Rightarrow> JObj (AList.update k x fs) | _ \<Rightarrow> v)"

fun truthy :: "jsval \<Rightarrow> bool" where
  "truthy JUndefined = False"
| "truthy JNull = False"
| "truthy (JBool b) = b"
| "truthy (JNum n) = (n \<noteq> 0)"
| "truthy (JStr s) = (s \<noteq> [])"
| "truthy _ = True"

definition nullish :: "jsval \<Rightarrow> bool" where
  "nullish v = (v = JUndefined \<or> v = JNull)"

lemma weight_lookup_le:
  "weight (lookup fs k) \<le> sum_list (map snd (map (map_prod id weight) fs))"
  by (induction fs) (auto simp: lookup_def)

lemma weight_lookup_less: "weight (lookup fs k) < weight (JObj fs)"
  using weight_lookup_le [of fs k] by simp

lemma lookup_update:
  "lookup (AList.update k v fs) k' = (if k' = k then v else lookup fs k')"
  by (simp add: lookup_def update_conv')

subsection \<open>Link materialisation: \<^verbatim>\<open>_parseRecord\<close>\<close>

definition JOINABLE :: "string list" where
  "JOINABLE = [''transaction'']"

definition parseMeasure ::
  "jsval + string list \<times> (string \<times> jsval) list \<Rightarrow> nat \<times> nat" where
  "parseMeasure x =
     (case x of
        Inl json \<Rightarrow> (2 * weight json + 2, 0)
      | Inr (keys, fs) \<Rightarrow>
          (if ''transaction'' \<in> set keys then 2 * weight (lookup fs ''transaction'') + 3 else 1,
           length keys))"

text \<open>
  \<^verbatim>\<open>_parseRecord\<close>; \<open>parseLinks\<close> is its \<^verbatim>\<open>for (const key of Object.keys(json._links))\<close>
  loop over the keys still to visit, with the fields of \<^verbatim>\<open>json\<close> as mutated so far.
  The copy under \<^verbatim>\<open>key_attr\<close> is the same object as the inline value, which the recursive
  call normalises in place: after the call both hold the normalised record.
\<close>

function parseRecord :: "jsval \<Rightarrow> error + jsval"
  and parseLinks :: "string list \<Rightarrow> (string \<times> jsval) list \<Rightarrow> error + jsval" where
  "parseRecord json =
     (case json of
        JUndefined \<Rightarrow> Inl (TypeError ''Cannot read property '_links' of undefined'')
      | JNull \<Rightarrow> Inl (TypeError ''Cannot read property '_links' of null'')
      | JObj fs \<Rightarrow>
          if \<not> truthy (lookup fs ''_links'') then Inr json
          else parseLinks (Object_keys (lookup fs ''_links'')) fs
      | _ \<Rightarrow> Inr json)"
| "parseLinks [] fs = Inr (JObj fs)"
| "parseLinks (key # keys) fs =
     (let n = getProp (lookup fs ''_links'') key;
          included = (lookup fs key \<noteq> JUndefined);
          fs' = (if included then AList.update (key @ ''_attr'') (lookup fs key) fs else fs)
      in if included \<and> key \<in> set JOINABLE
         then (case parseRecord (lookup fs' key) of
                 Inl e \<Rightarrow> Inl e
               | Inr record \<Rightarrow>
                   parseLinks keys
                     (AList.update key (JEmbedded record)
                        (AList.update (key @ ''_attr'') record fs')))
         else parseLinks keys (AList.update key (JRequestFn n) fs'))"
  by pat_completeness auto
termination
proof (relation "inv_image (less_than <*lex*> less_than) parseMeasure", goal_cases)
  case 1
  show ?case by (intro wf_inv_image wf_lex_prod wf_less_than)
next
  case (2 json fs)
  have "weight (lookup fs ''transaction'') < weight (JObj fs)"
    by (rule weight_lookup_less)
  then show ?case using 2 by (simp add: parseMeasure_def)
next
  case 3
  then show ?case
    by (auto simp add: parseMeasure_def lookup_update JOINABLE_def)
next
  case 4
  then show ?case
    by (auto simp add: parseMeasure_def lookup_update JOINABLE_def)
next
  case 5
  then show ?case
    by (auto simp add: parseMeasure_def lookup_update JOINABLE_def)
qed

declare parseRecord.simps [simp del]

declare parseLinks.simps [simp del]

subsection \<open>Requests\<close>

record URI =
  protocol :: string
  authority :: string
  segments :: "string list"
  query :: "(string \<times> string) list"

definition setQuery :: "string \<Rightarrow> string \<Rightarrow> URI \<Rightarrow> URI" where
  "setQuery k v u = u\<lparr>query := AList.update k v (query u)\<rparr>"

record ErrorResponse =
  status :: nat
  statusText :: string
  data :: jsval

record AxiosError =
  message :: string
  response :: "ErrorResponse option"

datatype HttpResult = HttpOk jsval | HttpFailed AxiosError

text \<open>
  What the builder takes from outside: the URI library (\<^verbatim>\<open>URI(x)\<close> and
  \<^verbatim>\<open>URITemplate(href).expand(opts)\<close>, which may throw), the text of the \<open>i\<close>-th
  \<^verbatim>\<open>Math.random()\<close>, and the HTTP peer: its answer to a GET, which may depend on the
  requests made before.
\<close>

record Env =
  URI_parse :: "jsval \<Rightarrow> error + URI"
  URITemplate_expand :: "jsval \<Rightarrow> jsval \<Rightarrow> error + jsval"
  Math_random :: "nat \<Rightarrow> string"
  axios_get :: "URI list \<Rightarrow> URI \<Rightarrow> HttpResult"

text \<open>The effects: the GET requests issued so far and the number of random draws.\<close>

record World =
  requests :: "URI list"
  randomCalls :: nat

text \<open>\<^verbatim>\<open>_handleNetworkError\<close>: the rejection a failed request is mapped to.\<close>

definition handleNetworkError :: "AxiosError \<Rightarrow> error" where
  "handleNetworkError err =
     (case response err of
        None \<Rightarrow> Error (message err)
      | Some r \<Rightarrow>
          if status r \<noteq> 0 \<and> statusText r \<noteq> []
          then (if status r = 404 then NotFoundError (statusText r) (data r)
                else NetworkError (statusText r) (data r))
          else Error (message err))"

text \<open>
  The URL \<^verbatim>\<open>_sendNormalRequest\<close> asks for: the given one, with the builder's authority
  and protocol where it has none, and the cache-busting parameter \<^verbatim>\<open>c\<close>.
\<close>

definition requestUrl :: "Env \<Rightarrow> URI \<Rightarrow> URI \<Rightarrow> World \<Rightarrow> URI" where
  "requestUrl env builderUrl initialUrl w =
     (let url1 = (if authority initialUrl = [] then initialUrl\<lparr>authority := authority builderUrl\<rparr>
                  else initialUrl);
          url2 = (if protocol url1 = [] then url1\<lparr>protocol := protocol builderUrl\<rparr> else url1)
      in setQuery ''c'' (Math_random env (randomCalls w)) url2)"

text \<open>
  \<^verbatim>\<open>_sendNormalRequest\<close>: returns the URL object as mutated, the outcome of the promise
  and the world after the one GET.
\<close>

definition sendNormalRequest ::
  "Env \<Rightarrow> URI \<Rightarrow> URI \<Rightarrow> World \<Rightarrow> URI \<times> (error + jsval) \<times> World" where
  "sendNormalRequest env builderUrl initialUrl w =
     (let url' = requestUrl env builderUrl initialUrl w
      in (url',
          (case axios_get env (requests w) url' of
             HttpOk d \<Rightarrow> Inr d
           | HttpFailed err \<Rightarrow> Inl (handleNetworkError err)),
          w\<lparr>requests := requests w @ [url'], randomCalls := Suc (randomCalls w)\<rparr>))"

subsection \<open>Responses\<close>

datatype Response = Record jsval | CollectionPage jsval jsval

text \<open>The loop of \<^verbatim>\<open>_toCollectionPage\<close> over an array of records.\<close>

fun parseRecords :: "jsval list \<Rightarrow> error + jsval list" where
  "parseRecords [] = Inr []"
| "parseRecords (r # rs) =
     (case parseRecord r of
        Inl e \<Rightarrow> Inl e
      | Inr r' \<Rightarrow> (case parseRecords rs of Inl e \<Rightarrow> Inl e | Inr rs' \<Rightarrow> Inr (r' # rs')))"

text \<open>
  \<^verbatim>\<open>_toCollectionPage\<close>. The page keeps its records and, for its \<^verbatim>\<open>next\<close> and \<^verbatim>\<open>prev\<close>
  closures, the document \<^verbatim>\<open>json\<close> with the records replaced in place. A non-empty string
  as \<^verbatim>\<open>records\<close> makes the in-place write throw (strict mode); a value that is neither
  array nor string has no indices to visit (an object with a \<^verbatim>\<open>length\<close> member of its own
  is not modelled).
\<close>

definition toCollectionPage :: "jsval \<Rightarrow> error + Response" where
  "toCollectionPage json =
     (if nullish json then Inl (TypeError ''Cannot read property '_embedded' of undefined'')
      else if nullish (getProp json ''_embedded'')
        then Inl (TypeError ''Cannot read property 'records' of undefined'')
      else
        (case getProp (getProp json ''_embedded'') ''records'' of
           JUndefined \<Rightarrow> Inl (TypeError ''Cannot read property 'length' of undefined'')
         | JNull \<Rightarrow> Inl (TypeError ''Cannot read property 'length' of null'')
         | JArr rs \<Rightarrow>
             (case parseRecords rs of
                Inl e \<Rightarrow> Inl e
              | Inr rs' \<Rightarrow>
                  Inr (CollectionPage (JArr rs')
                    (setProp json ''_embedded''
                       (setProp (getProp json ''_embedded'') ''records'' (JArr rs')))))
         | JStr s \<Rightarrow>
             if s = [] then Inr (CollectionPage (JStr s) json)
             else Inl (TypeError ''Cannot assign to read only property '0' of string'')
         | recs \<Rightarrow> Inr (CollectionPage recs json)))"

text \<open>\<^verbatim>\<open>_parseResponse\<close>.\<close>

definition parseResponse :: "jsval \<Rightarrow> error + Response" where
  "parseResponse json =
     (if nullish json then Inl (TypeError ''Cannot read property '_embedded' of undefined'')
      else if truthy (getProp json ''_embedded'')
              \<and> truthy (getProp (getProp json ''_embedded'') ''records'')
        then toCollectionPage json
      else (case parseRecord json of Inl e \<Rightarrow> Inl e | Inr r \<Rightarrow> Inr (Record r)))"

text \<open>
  The URI the closure of \<^verbatim>\<open>_requestFnForLink(link)\<close> computes from its link: the
  \<^verbatim>\<open>href\<close>, expanded with \<^verbatim>\<open>opts\<close> first when the link is templated.
\<close>

definition linkUri :: "Env \<Rightarrow> jsval \<Rightarrow> jsval \<Rightarrow> error + URI" where
  "linkUri env link opts =
     (if truthy (getProp link ''templated'')
      then (case URITemplate_expand env (getProp link ''href'') opts of
              Inl e \<Rightarrow> Inl e
            | Inr expanded \<Rightarrow> URI_parse env expanded)
      else URI_parse env (getProp link ''href''))"

text \<open>
  The closure \<^verbatim>\<open>_requestFnForLink(link)\<close> returns, applied to \<^verbatim>\<open>opts\<close> (an absent argument
  is the empty object): outcome of the promise and the world afterwards.
\<close>

definition requestFnForLink ::
  "Env \<Rightarrow> URI \<Rightarrow> jsval \<Rightarrow> jsval \<Rightarrow> World \<Rightarrow> (error + Response) \<times> World" where
  "requestFnForLink env builderUrl link opts w =
     (let opts' = (if opts = JUndefined then JObj [] else opts)
      in if nullish link then (Inl (TypeError ''Cannot read property 'templated' of undefined''), w)
         else
           (case linkUri env link opts' of
              Inl e \<Rightarrow> (Inl e, w)
            | Inr uri \<Rightarrow>
                (case sendNormalRequest env builderUrl uri w of
                   (_, Inl e, w') \<Rightarrow> (Inl e, w')
                 | (_, Inr r, w') \<Rightarrow> (parseResponse r, w'))))"

text \<open>Calling an accessor that \<^verbatim>\<open>_parseRecord\<close> installed.\<close>

definition callAccessor ::
  "Env \<Rightarrow> URI \<Rightarrow> jsval \<Rightarrow> jsval \<Rightarrow> World \<Rightarrow> (error + Response) \<times> World" where
  "callAccessor env builderUrl f opts w =
     (case f of
        JEmbedded record \<Rightarrow> (Inr (Record record), w)
      | JRequestFn link \<Rightarrow> requestFnForLink env builderUrl link opts w
      | _ \<Rightarrow> (Inl (TypeError ''not a function''), w))"

text \<open>
  The \<^verbatim>\<open>next\<close> and \<^verbatim>\<open>prev\<close> closures of a page, over the document \<^verbatim>\<open>json\<close> they
  captured: \<^verbatim>\<open>_toCollectionPage(await _sendNormalRequest(URI(json._links[rel].href)))\<close>.
\<close>

definition pageLink ::
  "string \<Rightarrow> Env \<Rightarrow> URI \<Rightarrow> jsval \<Rightarrow> World \<Rightarrow> (error + Response) \<times> World" where
  "pageLink rel env builderUrl json w =
     (if nullish (getProp json ''_links'')
        then (Inl (TypeError ''Cannot read property of undefined''), w)
      else if nullish (getProp (getProp json ''_links'') rel)
        then (Inl (TypeError ''Cannot read property 'href' of undefined''), w)
      else
        (case URI_parse env (getProp (getProp (getProp json ''_links'') rel) ''href'') of
           Inl e \<Rightarrow> (Inl e, w)
         | Inr uri \<Rightarrow>
             (case sendNormalRequest env builderUrl uri w of
                (_, Inl e, w') \<Rightarrow> (Inl e, w')
              | (_, Inr r, w') \<Rightarrow> (toCollectionPage r, w'))))"

definition next_page ::
  "Env \<Rightarrow> URI \<Rightarrow> Response \<Rightarrow> World \<Rightarrow> (error + Response) \<times> World" where
  "next_page env builderUrl page w =
     (case page of
        CollectionPage recs json \<Rightarrow> pageLink ''next'' env builderUrl json w
      | Record r \<Rightarrow> callAccessor env builderUrl (getProp r ''next'') JUndefined w)"

definition prev_page ::
  "Env \<Rightarrow> URI \<Rightarrow> Response \<Rightarrow> World \<Rightarrow> (error + Response) \<times> World" where
  "prev_page env builderUrl page w =
     (case page of
        CollectionPage recs json \<Rightarrow> pageLink ''prev'' env builderUrl json w
      | Record r \<Rightarrow> callAccessor env builderUrl (getProp r ''prev'') JUndefined w)"

subsection \<open>The builder\<close>

record CallBuilder =
  url :: URI
  filter' :: "string list list"
  originalSegments :: "string list"

definition CallBuilder_new :: "URI \<Rightarrow> CallBuilder" where
  "CallBuilder_new serverUrl =
     \<lparr>url = serverUrl, filter' = [], originalSegments = segments serverUrl\<rparr>"

definition cursor :: "string \<Rightarrow> CallBuilder \<Rightarrow> CallBuilder" where
  "cursor c b = b\<lparr>url := setQuery ''cursor'' c (url b)\<rparr>"

definition limit :: "nat \<Rightarrow> CallBuilder \<Rightarrow> CallBuilder" where
  "limit recordsNumber b = b\<lparr>url := setQuery ''limit'' (decimal recordsNumber) (url b)\<rparr>"

definition order :: "string \<Rightarrow> CallBuilder \<Rightarrow> CallBuilder" where
  "order direction b = b\<lparr>url := setQuery ''order'' direction (url b)\<rparr>"

definition join :: "string \<Rightarrow> CallBuilder \<Rightarrow> CallBuilder" where
  "join include b = b\<lparr>url := setQuery ''join'' include (url b)\<rparr>"

text \<open>\<^verbatim>\<open>AccountCallBuilder\<close> and \<^verbatim>\<open>LedgerCallBuilder\<close>: constructor and filter method.\<close>

definition AccountCallBuilder_new :: "URI \<Rightarrow> CallBuilder" where
  "AccountCallBuilder_new serverUrl =
     (let this = CallBuilder_new serverUrl
      in this\<lparr>url := (url this)\<lparr>segments := segments (url this) @ [''accounts'']\<rparr>\<rparr>)"

definition accountId' :: "string \<Rightarrow> CallBuilder \<Rightarrow> CallBuilder" where
  "accountId' id' b = b\<lparr>filter' := filter' b @ [[''accounts'', id']]\<rparr>"

definition LedgerCallBuilder_new :: "URI \<Rightarrow> CallBuilder" where
  "LedgerCallBuilder_new serverUrl =
     (let this = CallBuilder_new serverUrl
      in this\<lparr>url := (url this)\<lparr>segments := segments (url this) @ [''ledgers'']\<rparr>\<rparr>)"

definition ledger :: "nat \<Rightarrow> CallBuilder \<Rightarrow> CallBuilder" where
  "ledger sequence' b = b\<lparr>filter' := filter' b @ [[''ledgers'', decimal sequence']]\<rparr>"

text \<open>\<^verbatim>\<open>checkFilter\<close>: throws, or leaves the builder with its path set.\<close>

definition checkFilter :: "CallBuilder \<Rightarrow> error + CallBuilder" where
  "checkFilter b =
     (if length (filter' b) \<ge> 2
        then Inl (BadRequestError ''Too many filters specified'' (filter' b))
      else if length (filter' b) = 1
        then Inr (b\<lparr>url := (url b)\<lparr>segments := originalSegments b @ filter' b ! 0\<rparr>\<rparr>)
      else Inr b)"

text \<open>
  \<^verbatim>\<open>call\<close> either throws at once, or returns a promise after issuing its request; the
  outcome of the promise is the normalised response or a rejection.
\<close>

datatype 'a outcome = Throws error | Returns 'a

definition call ::
  "Env \<Rightarrow> CallBuilder \<Rightarrow> World \<Rightarrow> (error + Response) outcome \<times> CallBuilder \<times> World" where
  "call env b w =
     (case checkFilter b of
        Inl e \<Rightarrow> (Throws e, b, w)
      | Inr b' \<Rightarrow>
          (case sendNormalRequest env (url b') (url b') w of
             (url', r, w') \<Rightarrow>
               (Returns (case r of Inl e \<Rightarrow> Inl e | Inr json \<Rightarrow> parseResponse json),
                b'\<lparr>url := url'\<rparr>, w')))"


subsection \<open>A reference environment\<close>

text \<open>
  For concrete runs: a URI reader that keeps a string \<^verbatim>\<open>href\<close> as one path component and
  rejects anything else, a template expansion that fills in the template's first variable
  \<^verbatim>\<open>{name}\<close> with the caller's parameter of that name, and a peer that serves one
  transaction and a chain of three pages of operations.
\<close>

definition expandFirst :: "jsval \<Rightarrow> string \<Rightarrow> string" where
  "expandFirst opts s =
     (let before = takeWhile (\<lambda>c. c \<noteq> CHR ''{'') s;
          rest = drop 1 (dropWhile (\<lambda>c. c \<noteq> CHR ''{'') s);
          name = takeWhile (\<lambda>c. c \<noteq> CHR ''}'') rest;
          after = drop 1 (dropWhile (\<lambda>c. c \<noteq> CHR ''}'') rest)
      in before @ (case getProp opts name of JStr v \<Rightarrow> v | _ \<Rightarrow> []) @ after)"

definition refLink :: jsval where
  "refLink = JObj [(''href'', JStr ''/transactions/abc'')]"

definition refTemplatedLink :: jsval where
  "refTemplatedLink =
     JObj [(''href'', JStr ''/transactions/{hash}''), (''templated'', JBool True)]"

definition refLinks :: "(string \<times> jsval) list" where
  "refLinks = [(''self'', JObj [(''href'', JStr ''/operations/1'')]), (''transaction'', refLink)]"

definition refTransaction :: jsval where
  "refTransaction = JObj [(''hash'', JStr ''abc'')]"

definition refOperation :: "(string \<times> jsval) list" where
  "refOperation =
     [(''id'', JStr ''1''), (''_links'', JObj refLinks), (''transaction'', refTransaction)]"

definition refOperationParsed :: jsval where
  "refOperationParsed =
     JObj [(''id'', JStr ''1''), (''_links'', JObj refLinks),
           (''transaction'', JEmbedded refTransaction),
           (''self'', JRequestFn (JObj [(''href'', JStr ''/operations/1'')])),
           (''transaction_attr'', refTransaction)]"

definition refOperationBareParsed :: jsval where
  "refOperationBareParsed =
     JObj [(''id'', JStr ''1''), (''_links'', JObj refLinks),
           (''self'', JRequestFn (JObj [(''href'', JStr ''/operations/1'')])),
           (''transaction'', JRequestFn refLink)]"

text \<open>The same record with a templated link, and what normalising it gives.\<close>

definition refTemplated :: "(string \<times> jsval) list" where
  "refTemplated =
     [(''id'', JStr ''1''), (''_links'', JObj [(''transaction'', refTemplatedLink)])]"

definition refTemplatedParsed :: jsval where
  "refTemplatedParsed =
     JObj [(''id'', JStr ''1''), (''_links'', JObj [(''transaction'', refTemplatedLink)]),
           (''transaction'', JRequestFn refTemplatedLink)]"

text \<open>
  A record whose links begin with a relation that is itself named \<^verbatim>\<open>_links\<close>, and what
  normalising it gives.
\<close>

definition refShadowed :: "(string \<times> jsval) list" where
  "refShadowed =
     [(''id'', JStr ''1''),
      (''_links'', JObj [(''_links'', JObj [(''href'', JStr ''/operations/1'')]),
                         (''transaction'', refLink)])]"

definition refShadowedParsed :: jsval where
  "refShadowedParsed =
     JObj [(''id'', JStr ''1''),
           (''_links'', JRequestFn (JObj [(''href'', JStr ''/operations/1'')])),
           (''_links_attr'', JObj [(''_links'', JObj [(''href'', JStr ''/operations/1'')]),
                                   (''transaction'', refLink)]),
           (''transaction'', JRequestFn JUndefined)]"

text \<open>
  A page document as the peer sends it, with one record that has a link of its own, and
  the same with the record normalised.
\<close>

definition refRecord :: "string \<Rightarrow> jsval" where
  "refRecord ident =
     JObj [(''id'', JStr ident),
           (''_links'', JObj [(''self'', JObj [(''href'', JStr (''/operations/'' @ ident))])])]"

definition refRecordParsed :: "string \<Rightarrow> jsval" where
  "refRecordParsed ident =
     JObj [(''id'', JStr ident),
           (''_links'', JObj [(''self'', JObj [(''href'', JStr (''/operations/'' @ ident))])]),
           (''self'', JRequestFn (JObj [(''href'', JStr (''/operations/'' @ ident))]))]"

definition refPageLinks :: "string \<Rightarrow> (string \<times> jsval) list" where
  "refPageLinks cursor' =
     [(''next'', JObj [(''href'', JStr (''/operations?cursor='' @ cursor'))])]"

definition refPage :: "string \<Rightarrow> string \<Rightarrow> (string \<times> jsval) list" where
  "refPage ident cursor' =
     [(''_links'', JObj (refPageLinks cursor')),
      (''_embedded'', JObj [(''records'', JArr [refRecord ident])])]"

definition refPageParsed :: "string \<Rightarrow> string \<Rightarrow> jsval" where
  "refPageParsed ident cursor' =
     JObj [(''_links'', JObj (refPageLinks cursor')),
           (''_embedded'', JObj [(''records'', JArr [refRecordParsed ident])])]"

definition refServer :: "URI list \<Rightarrow> URI \<Rightarrow> HttpResult" where
  "refServer history u =
     (if segments u = [''/transactions/abc''] then HttpOk (JObj [(''hash'', JStr ''abc'')])
      else if segments u = [''/operations?cursor=1''] then HttpOk (JObj (refPage ''2'' ''2''))
      else if segments u = [''/operations?cursor=2''] then HttpOk (JObj (refPage ''3'' ''3''))
      else if segments u = [''accounts'', ''GA''] then HttpOk (JObj [(''id'', JStr ''GA'')])
      else HttpFailed \<lparr>message = ''Request failed'',
             response = Some \<lparr>status = 404, statusText = ''Not Found'', data = JNull\<rparr>\<rparr>)"

definition refEnv :: Env where
  "refEnv =
     \<lparr>URI_parse = (\<lambda>x. case x of
          JStr s \<Rightarrow> Inr \<lparr>protocol = [], authority = [], segments = [s], query = []\<rparr>
        | _ \<Rightarrow> Inl (TypeError ''invalid input'')),
      URITemplate_expand = (\<lambda>href opts. case href of
          JStr s \<Rightarrow> Inr (JStr (expandFirst opts s))
        | _ \<Rightarrow> Inl (TypeError ''invalid template'')),
      Math_random = (\<lambda>i. ''0.'' @ decimal i),
      axios_get = refServer\<rparr>"

definition refUrl :: URI where
  "refUrl = \<lparr>protocol = ''https'', authority = ''horizon-testnet.stellar.org'',
             segments = [], query = []\<rparr>"

definition refWorld :: World where
  "refWorld = \<lparr>requests = [], randomCalls = 0\<rparr>"

definition refRequest :: "string list \<Rightarrow> nat \<Rightarrow> URI" where
  "refRequest segs i =
     \<lparr>protocol = ''https'', authority = ''horizon-testnet.stellar.org'', segments = segs,
      query = [(''c'', ''0.'' @ decimal i)]\<rparr>"

section \<open>The push subscription\<close>

subsection \<open>\<^verbatim>\<open>stream\<close> and its handlers\<close>

text \<open>
  \<^verbatim>\<open>stream\<close> leaves behind an event source, a timer and three event handlers. They are
  embedded as transformers of the closure's state, and the runtime's part (running a due
  timer, delivering an event to the listeners of an open connection) as a step function
  over events. Connections are numbered by the order of the \<^verbatim>\<open>new EventSource\<close> calls;
  the parameter \<open>construct n url\<close> says whether the \<open>n\<close>-th call throws. The callbacks
  of the caller are recorded by the arguments they were called with. Time is in
  milliseconds.
\<close>

record Options =
  onmessage :: bool
  onerror :: bool
  reconnectTimeout :: "nat option"

datatype Reported = Thrown error | ErrorEvent jsval

record Subscription =
  es :: "nat option"
  attempts :: "URI list"
  closed :: "nat list"
  listening :: "nat list"
  timeout :: "nat option"
  timers :: "(nat \<times> nat) list"
  nextTimer :: nat
  streamUrl :: URI
  clock :: nat
  onerrorCalls :: "Reported list"
  onmessageCalls :: "jsval list"
  uncaught :: "error list"

text \<open>\<^verbatim>\<open>options.reconnectTimeout || 15 * 1000\<close>.\<close>

definition reconnectDelay :: "Options \<Rightarrow> nat" where
  "reconnectDelay options =
     (case reconnectTimeout options of
        None \<Rightarrow> 15 * 1000
      | Some n \<Rightarrow> if n = 0 then 15 * 1000 else n)"

text \<open>\<^verbatim>\<open>timeout = setTimeout(..., delay)\<close> and \<^verbatim>\<open>clearTimeout(timeout)\<close>.\<close>

definition createTimeout :: "Options \<Rightarrow> Subscription \<Rightarrow> Subscription" where
  "createTimeout options s =
     s\<lparr>timeout := Some (nextTimer s),
       timers := timers s @ [(nextTimer s, clock s + reconnectDelay options)],
       nextTimer := Suc (nextTimer s)\<rparr>"

definition clearTimeout :: "Subscription \<Rightarrow> Subscription" where
  "clearTimeout s =
     (case timeout s of
        None \<Rightarrow> s
      | Some i \<Rightarrow> s\<lparr>timers := filter (\<lambda>t. fst t \<noteq> i) (timers s)\<rparr>)"

definition es_close :: "Subscription \<Rightarrow> Subscription" where
  "es_close s = (case es s of None \<Rightarrow> s | Some c \<Rightarrow> s\<lparr>closed := List.insert c (closed s)\<rparr>)"

text \<open>\<^verbatim>\<open>createEventSource\<close>: the constructor in its \<^verbatim>\<open>try\<close>, the timer, the listeners.\<close>

definition createEventSource ::
  "(nat \<Rightarrow> URI \<Rightarrow> error option) \<Rightarrow> Options \<Rightarrow> Subscription \<Rightarrow> Subscription" where
  "createEventSource construct options s =
     (let s1 = s\<lparr>attempts := attempts s @ [streamUrl s]\<rparr>;
          s2 = (case construct (length (attempts s)) (streamUrl s) of
                  None \<Rightarrow> s1\<lparr>es := Some (length (attempts s))\<rparr>
                | Some err \<Rightarrow>
                    if onerror options then s1\<lparr>onerrorCalls := onerrorCalls s1 @ [Thrown err]\<rparr>
                    else s1);
          s3 = createTimeout options s2
      in case es s3 of
           None \<Rightarrow> s3
         | Some c \<Rightarrow> s3\<lparr>listening := listening s3 @ [c]\<rparr>)"

text \<open>The timer's callback: \<^verbatim>\<open>if (es) es.close(); es = createEventSource()\<close>.\<close>

definition timerCallback ::
  "(nat \<Rightarrow> URI \<Rightarrow> error option) \<Rightarrow> Options \<Rightarrow> Subscription \<Rightarrow> Subscription" where
  "timerCallback construct options s = createEventSource construct options (es_close s)"

text \<open>
  A message event: the event object as property reads see it, and what
  \<^verbatim>\<open>JSON.parse(message.data)\<close> yields or throws.
\<close>

record MessageEvent =
  raw :: jsval
  parsed :: "error + jsval"

definition cursorText :: "jsval \<Rightarrow> string" where
  "cursorText v =
     (case v of JStr s \<Rightarrow> s | JNum n \<Rightarrow> decimalInt n | JBool b \<Rightarrow> (if b then ''true'' else ''false'')
      | _ \<Rightarrow> ''[object Object]'')"

text \<open>
  \<^verbatim>\<open>onMessage\<close>; an exception of \<^verbatim>\<open>JSON.parse\<close> or \<^verbatim>\<open>_parseRecord\<close> leaves the handler
  before it touches cursor, timer or callback.
\<close>

definition onMessage :: "Options \<Rightarrow> MessageEvent \<Rightarrow> Subscription \<Rightarrow> Subscription" where
  "onMessage options msg s =
     (case (if truthy (getProp (raw msg) ''data'')
            then (case parsed msg of Inl e \<Rightarrow> Inl e | Inr json \<Rightarrow> parseRecord json)
            else Inr (raw msg)) of
        Inl e \<Rightarrow> s\<lparr>uncaught := uncaught s @ [e]\<rparr>
      | Inr result \<Rightarrow>
          (let s1 = (if truthy (getProp result ''paging_token'')
                     then s\<lparr>streamUrl := setQuery ''cursor''
                            (cursorText (getProp result ''paging_token'')) (streamUrl s)\<rparr>
                     else s);
               s2 = createTimeout options (clearTimeout s1)
           in if onmessage options then s2\<lparr>onmessageCalls := onmessageCalls s2 @ [result]\<rparr>
              else s2))"

definition onError :: "Options \<Rightarrow> jsval \<Rightarrow> Subscription \<Rightarrow> Subscription" where
  "onError options err s =
     (if onerror options then s\<lparr>onerrorCalls := onerrorCalls s @ [ErrorEvent err]\<rparr> else s)"

text \<open>The function \<^verbatim>\<open>stream\<close> returns: \<^verbatim>\<open>clearTimeout(timeout); if (es) es.close()\<close>.\<close>

definition close :: "Subscription \<Rightarrow> Subscription" where
  "close s = es_close (clearTimeout s)"

text \<open>\<^verbatim>\<open>stream\<close>, called at time \<open>now\<close>; \<open>version\<close> is the package version.\<close>

definition stream ::
  "(nat \<Rightarrow> URI \<Rightarrow> error option) \<Rightarrow> string \<Rightarrow> Options \<Rightarrow> CallBuilder \<Rightarrow> nat
   \<Rightarrow> error + Subscription" where
  "stream construct version options b now =
     (case checkFilter b of
        Inl e \<Rightarrow> Inl e
      | Inr b' \<Rightarrow>
          Inr (createEventSource construct options
            \<lparr>es = None, attempts = [], closed = [], listening = [], timeout = None,
             timers = [], nextTimer = 0,
             streamUrl = setQuery ''X-Client-Version'' version
                           (setQuery ''X-Client-Name'' ''js-stellar-sdk'' (url b')),
             clock = now, onerrorCalls = [], onmessageCalls = [], uncaught = []\<rparr>))"

text \<open>
  What the runtime does. A pending timer runs when its deadline is the earliest and not
  before the clock; an event of a connection reaches, at a time before every pending
  deadline, each listener added to that connection, provided the connection is open; the
  caller may close at any time. \<open>None\<close>: the event cannot happen in that state.
\<close>

datatype Event =
    TimerDue nat
  | MessageArrives nat nat MessageEvent
  | ErrorArrives nat nat jsval
  | CloseCalled nat

definition deliverable :: "nat \<Rightarrow> nat \<Rightarrow> Subscription \<Rightarrow> bool" where
  "deliverable t c s =
     (clock s \<le> t \<and> list_all (\<lambda>p. t < snd p) (timers s)
      \<and> c < length (attempts s) \<and> c \<notin> set (closed s))"

definition step ::
  "(nat \<Rightarrow> URI \<Rightarrow> error option) \<Rightarrow> Options \<Rightarrow> Event \<Rightarrow> Subscription
   \<Rightarrow> Subscription option" where
  "step construct options ev s =
     (case ev of
        TimerDue i \<Rightarrow>
          (case map_of (timers s) i of
             None \<Rightarrow> None
           | Some d \<Rightarrow>
               if clock s \<le> d \<and> list_all (\<lambda>p. d \<le> snd p) (timers s)
               then Some (timerCallback construct options
                      (s\<lparr>timers := filter (\<lambda>p. fst p \<noteq> i) (timers s), clock := d\<rparr>))
               else None)
      | MessageArrives t c msg \<Rightarrow>
          if deliverable t c s
          then Some (((onMessage options msg) ^^ count_list (listening s) c) (s\<lparr>clock := t\<rparr>))
          else None
      | ErrorArrives t c err \<Rightarrow>
          if deliverable t c s
          then Some (((onError options err) ^^ count_list (listening s) c) (s\<lparr>clock := t\<rparr>))
          else None
      | CloseCalled t \<Rightarrow>
          if clock s \<le> t \<and> list_all (\<lambda>p. t < snd p) (timers s)
          then Some (close (s\<lparr>clock := t\<rparr>))
          else None)"

fun run ::
  "(nat \<Rightarrow> URI \<Rightarrow> error option) \<Rightarrow> Options \<Rightarrow> Event list \<Rightarrow> Subscription
   \<Rightarrow> Subscription option" where
  "run construct options [] s = Some s"
| "run construct options (ev # evs) s =
     (case step construct options ev s of
        None \<Rightarrow> None
      | Some s' \<Rightarrow> run construct options evs s')"

text \<open>The errors that reach \<^verbatim>\<open>options.onerror\<close> during a run: listed from the events.\<close>

definition genuine :: "(nat \<Rightarrow> URI \<Rightarrow> error option) \<Rightarrow> Event list \<Rightarrow> Reported \<Rightarrow> bool" where
  "genuine construct evs r =
     (case r of
        Thrown e \<Rightarrow> (\<exists>n u. construct n u = Some e)
      | ErrorEvent x \<Rightarrow> (\<exists>t c. ErrorArrives t c x \<in> set evs))"

subsection \<open>Reference runs of a subscription\<close>

definition neverThrows :: "nat \<Rightarrow> URI \<Rightarrow> error option" where
  "neverThrows n u = None"

definition alwaysThrows :: "nat \<Rightarrow> URI \<Rightarrow> error option" where
  "alwaysThrows n u = Some (Error ''invalid URL'')"

definition refOptions :: Options where
  "refOptions = \<lparr>onmessage = True, onerror = True, reconnectTimeout = None\<rparr>"

definition refMessage :: MessageEvent where
  "refMessage =
     \<lparr>raw = JObj [(''data'', JStr ''{...}'')],
      parsed = Inr (JObj [(''id'', JStr ''1''), (''paging_token'', JStr ''42'')])\<rparr>"

definition refStreamUrl :: "(string \<times> string) list \<Rightarrow> URI" where
  "refStreamUrl extra =
     \<lparr>protocol = ''https'', authority = ''horizon-testnet.stellar.org'',
      segments = [''accounts''],
      query = [(''X-Client-Name'', ''js-stellar-sdk''), (''X-Client-Version'', ''5.0.0'')]
                @ extra\<rparr>"

text \<open>After \<^verbatim>\<open>stream\<close> at time 0, with a constructor that returns.\<close>

definition refStarted :: Subscription where
  "refStarted =
     \<lparr>es = Some 0, attempts = [refStreamUrl []], closed = [], listening = [0],
      timeout = Some 0, timers = [(0, 15000)], nextTimer = 1, streamUrl = refStreamUrl [],
      clock = 0, onerrorCalls = [], onmessageCalls = [], uncaught = []\<rparr>"

text \<open>After a message at 5000 ms.\<close>

definition refStreaming :: Subscription where
  "refStreaming =
     \<lparr>es = Some 0, attempts = [refStreamUrl []], closed = [], listening = [0],
      timeout = Some 1, timers = [(1, 20000)], nextTimer = 2,
      streamUrl = refStreamUrl [(''cursor'', ''42'')],
      clock = 5000, onerrorCalls = [],
      onmessageCalls = [JObj [(''id'', JStr ''1''), (''paging_token'', JStr ''42'')]],
      uncaught = []\<rparr>"

text \<open>After the timer has run out at 20000 ms.\<close>

definition refReconnected :: Subscription where
  "refReconnected =
     \<lparr>es = Some 1, attempts = [refStreamUrl [], refStreamUrl [(''cursor'', ''42'')]],
      closed = [0], listening = [0, 1],
      timeout = Some 2, timers = [(2, 35000)], nextTimer = 3,
      streamUrl = refStreamUrl [(''cursor'', ''42'')],
      clock = 20000, onerrorCalls = [],
      onmessageCalls = [JObj [(''id'', JStr ''1''), (''paging_token'', JStr ''42'')]],
      uncaught = []\<rparr>"

text \<open>After \<^verbatim>\<open>stream\<close> at time 0, with a constructor that throws.\<close>

definition refUnconnected :: Subscription where
  "refUnconnected =
     \<lparr>es = None, attempts = [refStreamUrl []], closed = [], listening = [],
      timeout = Some 0, timers = [(0, 15000)], nextTimer = 1, streamUrl = refStreamUrl [],
      clock = 0, onerrorCalls = [Thrown (Error ''invalid URL'')], onmessageCalls = [],
      uncaught = []\<rparr>"


text \<open>
  What holds of every state a subscription reaches: at most one timer is pending, and it
  is the one the variable \<^verbatim>\<open>timeout\<close> names; connection numbers are those of constructor
  calls made.
\<close>

definition timerInvariant :: "Subscription \<Rightarrow> bool" where
  "timerInvariant s =
     ((timers s = [] \<or> (\<exists>i d. timers s = [(i, d)] \<and> timeout s = Some i))
      \<and> list_all (\<lambda>c. c < length (attempts s)) (closed s)
      \<and> (\<forall>c. es s = Some c \<longrightarrow> c < length (attempts s)))"

section \<open>Lemmas on the runtime functions\<close>

lemma of_char_digitChar: "d < 10 \<Longrightarrow> (of_char (digitChar d) :: nat) = 48 + d"
  by (simp add: digitChar_def)

lemma isDigit_digitChar: "d < 10 \<Longrightarrow> isDigit (digitChar d)"
  by (simp add: isDigit_def of_char_digitChar)

lemma digitValue_digitChar: "d < 10 \<Longrightarrow> digitValue (digitChar d) = d"
  by (simp add: digitValue_def of_char_digitChar)

lemma decimal_digits: "\<forall>c \<in> set (decimal n). isDigit c"
proof (induction n rule: decimal.induct)
  case (1 n)
  show ?case
  proof (cases "n < 10")
    case True
    then show ?thesis by (subst decimal.simps) (simp add: isDigit_digitChar)
  next
    case False
    then have "\<forall>c \<in> set (decimal (n div 10)). isDigit c" using "1" by simp
    moreover have "isDigit (digitChar (n mod 10))" by (simp add: isDigit_digitChar)
    ultimately show ?thesis using False by (subst decimal.simps) auto
  qed
qed

lemma decimal_nonempty: "decimal n \<noteq> []"
  by (subst decimal.simps) simp

lemma digitsValue_decimal: "digitsValue (decimal n) = n"
proof (induction n rule: decimal.induct)
  case (1 n)
  show ?case
  proof (cases "n < 10")
    case True
    then show ?thesis
      by (subst decimal.simps) (simp add: digitsValue_def digitValue_digitChar)
  next
    case False
    then have ih: "digitsValue (decimal (n div 10)) = n div 10" using "1" by simp
    have "digitsValue (decimal n) = 10 * digitsValue (decimal (n div 10)) + n mod 10"
      using False by (subst decimal.simps) (simp add: digitsValue_def digitValue_digitChar)
    then show ?thesis using ih by simp
  qed
qed

lemma parseDigits_decimal: "parseDigits (decimal n) = Some (int n)"
proof -
  have tw: "takeWhile isDigit (decimal n) = decimal n"
    using decimal_digits by (simp add: takeWhile_eq_all_conv)
  show ?thesis
    unfolding parseDigits_def Let_def tw
    by (simp add: decimal_nonempty digitsValue_decimal)
qed

lemma parseInt10_decimal: "parseInt10 (decimal n) = Some (int n)"
proof -
  obtain c rest where cr: "decimal n = c # rest"
    using decimal_nonempty by (cases "decimal n") auto
  then have dc: "isDigit c" using decimal_digits [of n] by simp
  then have nws: "\<not> isWhiteSpace c" and nm: "c \<noteq> CHR ''-''" and np: "c \<noteq> CHR ''+''"
    by (auto simp: isDigit_def isWhiteSpace_def)
  have "parseInt10 (c # rest) = parseDigits (c # rest)"
    using nws nm np by (simp add: parseInt10_def)
  then show ?thesis using cr parseDigits_decimal [of n] by simp
qed

lemma base64Alphabet_length: "length base64Alphabet = 64"
  by (simp add: base64Alphabet_def)

lemma base64Alphabet_distinct: "distinct base64Alphabet"
  by (simp add: base64Alphabet_def)

lemma base64Char_mem: "n < 64 \<Longrightarrow> base64Char n \<in> set base64Alphabet"
  unfolding base64Char_def by (rule nth_mem) (simp add: base64Alphabet_length)

lemma base64Char_not_special:
  assumes "n < 64"
  shows "base64Char n \<noteq> CHR ''=''" "base64Char n \<noteq> CHR ''-''" "base64Char n \<noteq> CHR ''_''"
  using base64Char_mem [OF assms] by (auto simp: base64Alphabet_def)

lemma unbase64_base64Char:
  assumes "n < 64"
  shows "unbase64 (base64Char n) = Some n"
proof -
  have "map_of (zip base64Alphabet [0..<64]) (base64Alphabet ! n) = Some ([0..<64] ! n)"
    using assms
    by (intro map_of_zip_nth) (simp_all add: base64Alphabet_length base64Alphabet_distinct)
  then show ?thesis
    using base64Char_not_special [OF assms] assms by (simp add: unbase64_def base64Char_def)
qed

lemma sextetsOf_simps:
  "sextetsOf [] = []"
  "sextetsOf (CHR ''='' # s) = []"
  "n < 64 \<Longrightarrow> sextetsOf (base64Char n # s) = n # sextetsOf s"
  by (simp_all add: sextetsOf_def List.map_filter_simps base64Char_not_special
      unbase64_base64Char)

lemma div_lt:
  fixes y :: nat
  shows "y < 256 \<Longrightarrow> y div 16 < 16" "y < 256 \<Longrightarrow> y div 64 < 4" "y < 256 \<Longrightarrow> y div 4 < 64"
  by (simp_all add: less_mult_imp_div_less)

lemma octet0_sextets:
  assumes "y < 256"
  shows "sextet0 x * 4 + sextet1 x y div 16 = x"
proof -
  have "y div 16 < 16" using assms by (rule div_lt)
  then have "(x mod 4 * 16 + y div 16) div 16 = x mod 4" by simp
  then show ?thesis unfolding sextet0_def sextet1_def by simp
qed

lemma octet1_sextets:
  assumes "y < 256" "z < 256"
  shows "(sextet1 x y mod 16) * 16 + sextet2 y z div 4 = y"
proof -
  have "y div 16 < 16" using assms(1) by (rule div_lt)
  then have a: "(x mod 4 * 16 + y div 16) mod 16 = y div 16" by simp
  have "z div 64 < 4" using assms(2) by (rule div_lt)
  then have b: "(y mod 16 * 4 + z div 64) div 4 = y mod 16" by simp
  show ?thesis unfolding sextet1_def sextet2_def a b by simp
qed

lemma octet2_sextets:
  assumes "z < 256"
  shows "(sextet2 y z mod 4) * 64 + sextet3 z = z"
proof -
  have "z div 64 < 4" using assms by (rule div_lt)
  then have a: "(y mod 16 * 4 + z div 64) mod 4 = z div 64" by simp
  show ?thesis unfolding sextet2_def sextet3_def a by simp
qed

lemma sextet_bounds:
  "x < 256 \<Longrightarrow> sextet0 x < 64"
  "y < 256 \<Longrightarrow> sextet1 x y < 64"
  "z < 256 \<Longrightarrow> sextet2 y z < 64"
  "sextet3 z < 64"
proof -
  show "x < 256 \<Longrightarrow> sextet0 x < 64" unfolding sextet0_def by (rule div_lt)
  have "x mod 4 < 4" by simp
  moreover have "y < 256 \<Longrightarrow> y div 16 < 16" by (rule div_lt)
  ultimately show "y < 256 \<Longrightarrow> sextet1 x y < 64" unfolding sextet1_def by linarith
  have "y mod 16 < 16" by simp
  moreover have "z < 256 \<Longrightarrow> z div 64 < 4" by (rule div_lt)
  ultimately show "z < 256 \<Longrightarrow> sextet2 y z < 64" unfolding sextet2_def by linarith
  show "sextet3 z < 64" unfolding sextet3_def by simp
qed

lemma unat8_less: "unat (w :: 8 word) < 256"
  using unsigned_less [of w] by simp

lemma word8_of_nat_unat: "n = unat (w :: 8 word) \<Longrightarrow> of_nat n = w"
  by simp

lemma octets_of_sextets:
  fixes a b c :: "8 word"
  shows "y < 256 \<Longrightarrow> octet0 (sextet0 (unat a)) (sextet1 (unat a) y) = a"
    and "z < 256 \<Longrightarrow> octet1 (sextet1 x (unat b)) (sextet2 (unat b) z) = b"
    and "octet2 (sextet2 y (unat c)) (sextet3 (unat c)) = c"
  unfolding octet0_def octet1_def octet2_def
  by (rule word8_of_nat_unat, simp only: octet0_sextets octet1_sextets octet2_sextets unat8_less)+

lemma base64_roundtrip: "Buffer_from_base64 (Buffer_toString_base64 bs) = bs"
proof (induction bs rule: Buffer_toString_base64.induct)
  case (1 a b c rest)
  have ih: "decodeSextets (sextetsOf (Buffer_toString_base64 rest)) = rest"
    using "1" by (simp add: Buffer_from_base64_def)
  have "sextetsOf (Buffer_toString_base64 (a # b # c # rest)) =
        sextet0 (unat a) # sextet1 (unat a) (unat b) # sextet2 (unat b) (unat c)
          # sextet3 (unat c) # sextetsOf (Buffer_toString_base64 rest)"
    by (simp add: sextetsOf_simps sextet_bounds unat8_less)
  then show ?case
    by (simp add: Buffer_from_base64_def ih octets_of_sextets unat8_less)
next
  case (2 a b)
  have "sextetsOf (Buffer_toString_base64 [a, b]) =
        [sextet0 (unat a), sextet1 (unat a) (unat b), sextet2 (unat b) 0]"
    by (simp add: sextetsOf_simps sextet_bounds unat8_less)
  then show ?case
    by (simp add: Buffer_from_base64_def octets_of_sextets unat8_less)
next
  case (3 a)
  have "sextetsOf (Buffer_toString_base64 [a]) = [sextet0 (unat a), sextet1 (unat a) 0]"
    by (simp add: sextetsOf_simps sextet_bounds unat8_less)
  then show ?case
    by (simp add: Buffer_from_base64_def octets_of_sextets)
next
  case 4
  show ?case by (simp add: Buffer_from_base64_def sextetsOf_simps)
qed

lemma length_randombytes: "length (randombytes entropy n) = n"
  by (simp add: randombytes_def)

section \<open>Properties of the challenge protocol\<close>

lemma Array_find_none:
  "(Array_find callback xs = Inr None) = (\<forall>x \<in> set xs. callback x = Inr False)"
  by (induction xs) (auto split: sum.splits)

lemma Array_find_accepts:
  "(\<exists>x. Array_find callback xs = Inr (Some x)) =
     (\<exists>i < length xs. callback (xs ! i) = Inr True
        \<and> (\<forall>j < i. callback (xs ! j) = Inr False))"
proof (induction xs)
  case Nil
  show ?case by simp
next
  case (Cons x xs)
  show ?case
  proof (cases "callback x")
    case (Inl msg)
    have "\<not> (\<exists>i < length (x # xs). callback ((x # xs) ! i) = Inr True
        \<and> (\<forall>j < i. callback ((x # xs) ! j) = Inr False))"
    proof
      assume "\<exists>i < length (x # xs). callback ((x # xs) ! i) = Inr True
        \<and> (\<forall>j < i. callback ((x # xs) ! j) = Inr False)"
      then obtain i where i: "callback ((x # xs) ! i) = Inr True"
        "\<forall>j < i. callback ((x # xs) ! j) = Inr False" by blast
      show False
      proof (cases i)
        case 0
        then show False using i(1) Inl by simp
      next
        case (Suc k)
        then have "callback ((x # xs) ! 0) = Inr False" using i(2) by blast
        then show False using Inl by simp
      qed
    qed
    then show ?thesis using Inl by simp
  next
    case (Inr accepted)
    show ?thesis
    proof (cases accepted)
      case True
      have "0 < length (x # xs) \<and> callback ((x # xs) ! 0) = Inr True
        \<and> (\<forall>j < 0. callback ((x # xs) ! j) = Inr False)"
        using Inr True by simp
      then have "\<exists>i < length (x # xs). callback ((x # xs) ! i) = Inr True
        \<and> (\<forall>j < i. callback ((x # xs) ! j) = Inr False)" by blast
      then show ?thesis using Inr True by simp
    next
      case False
      have "(\<exists>i < length (x # xs). callback ((x # xs) ! i) = Inr True
               \<and> (\<forall>j < i. callback ((x # xs) ! j) = Inr False))
          = (\<exists>i < length xs. callback (xs ! i) = Inr True
               \<and> (\<forall>j < i. callback (xs ! j) = Inr False))"
      proof
        assume "\<exists>i < length (x # xs). callback ((x # xs) ! i) = Inr True
               \<and> (\<forall>j < i. callback ((x # xs) ! j) = Inr False)"
        then obtain i where i: "i < length (x # xs)" "callback ((x # xs) ! i) = Inr True"
          "\<forall>j < i. callback ((x # xs) ! j) = Inr False" by blast
        then obtain k where k: "i = Suc k" using Inr False by (cases i) auto
        have "\<forall>j < k. callback (xs ! j) = Inr False"
        proof (intro allI impI)
          fix j assume "j < k"
          then have "Suc j < i" using k by simp
          then have "callback ((x # xs) ! Suc j) = Inr False" using i(3) by blast
          then show "callback (xs ! j) = Inr False" by simp
        qed
        then show "\<exists>i < length xs. callback (xs ! i) = Inr True
               \<and> (\<forall>j < i. callback (xs ! j) = Inr False)"
          using i(1,2) k by auto
      next
        assume "\<exists>i < length xs. callback (xs ! i) = Inr True
               \<and> (\<forall>j < i. callback (xs ! j) = Inr False)"
        then obtain i where i: "i < length xs" "callback (xs ! i) = Inr True"
          "\<forall>j < i. callback (xs ! j) = Inr False" by blast
        have "\<forall>j < Suc i. callback ((x # xs) ! j) = Inr False"
        proof (intro allI impI)
          fix j assume "j < Suc i"
          then show "callback ((x # xs) ! j) = Inr False"
            using i(3) Inr False by (cases j) auto
        qed
        then have "Suc i < length (x # xs) \<and> callback ((x # xs) ! Suc i) = Inr True
               \<and> (\<forall>j < Suc i. callback ((x # xs) ! j) = Inr False)"
          using i(1,2) by simp
        then show "\<exists>i < length (x # xs). callback ((x # xs) ! i) = Inr True
               \<and> (\<forall>j < i. callback ((x # xs) ! j) = Inr False)" by blast
      qed
      then show ?thesis using Inr False Cons.IH by simp
    qed
  qed
qed

lemma Array_find_throws:
  "(Array_find callback xs = Inl msg) =
     (\<exists>i < length xs. callback (xs ! i) = Inl msg
        \<and> (\<forall>j < i. callback (xs ! j) = Inr False))"
proof (induction xs)
  case Nil
  show ?case by simp
next
  case (Cons x xs)
  have shift: "(\<exists>i < length (x # xs). callback ((x # xs) ! i) = Inl msg
               \<and> (\<forall>j < i. callback ((x # xs) ! j) = Inr False))
          = (callback x = Inl msg
             \<or> callback x = Inr False
               \<and> (\<exists>i < length xs. callback (xs ! i) = Inl msg
                    \<and> (\<forall>j < i. callback (xs ! j) = Inr False)))"
  proof
    assume "\<exists>i < length (x # xs). callback ((x # xs) ! i) = Inl msg
               \<and> (\<forall>j < i. callback ((x # xs) ! j) = Inr False)"
    then obtain i where i: "i < length (x # xs)" "callback ((x # xs) ! i) = Inl msg"
      "\<forall>j < i. callback ((x # xs) ! j) = Inr False" by blast
    show "callback x = Inl msg
             \<or> callback x = Inr False
               \<and> (\<exists>i < length xs. callback (xs ! i) = Inl msg
                    \<and> (\<forall>j < i. callback (xs ! j) = Inr False))"
    proof (cases i)
      case 0
      then show ?thesis using i(2) by simp
    next
      case (Suc k)
      then have "callback ((x # xs) ! 0) = Inr False" using i(3) by blast
      moreover have "\<forall>j < k. callback (xs ! j) = Inr False"
      proof (intro allI impI)
        fix j assume "j < k"
        then have "Suc j < i" using Suc by simp
        then have "callback ((x # xs) ! Suc j) = Inr False" using i(3) by blast
        then show "callback (xs ! j) = Inr False" by simp
      qed
      ultimately show ?thesis using i(1,2) Suc by auto
    qed
  next
    assume "callback x = Inl msg
             \<or> callback x = Inr False
               \<and> (\<exists>i < length xs. callback (xs ! i) = Inl msg
                    \<and> (\<forall>j < i. callback (xs ! j) = Inr False))"
    then show "\<exists>i < length (x # xs). callback ((x # xs) ! i) = Inl msg
               \<and> (\<forall>j < i. callback ((x # xs) ! j) = Inr False)"
    proof
      assume "callback x = Inl msg"
      then have "0 < length (x # xs) \<and> callback ((x # xs) ! 0) = Inl msg
               \<and> (\<forall>j < 0. callback ((x # xs) ! j) = Inr False)" by simp
      then show ?thesis by blast
    next
      assume "callback x = Inr False
               \<and> (\<exists>i < length xs. callback (xs ! i) = Inl msg
                    \<and> (\<forall>j < i. callback (xs ! j) = Inr False))"
      then obtain i where x: "callback x = Inr False" and i: "i < length xs"
        "callback (xs ! i) = Inl msg" "\<forall>j < i. callback (xs ! j) = Inr False" by blast
      have "\<forall>j < Suc i. callback ((x # xs) ! j) = Inr False"
      proof (intro allI impI)
        fix j assume "j < Suc i"
        then show "callback ((x # xs) ! j) = Inr False"
          using i(3) x by (cases j) auto
      qed
      then have "Suc i < length (x # xs) \<and> callback ((x # xs) ! Suc i) = Inl msg
               \<and> (\<forall>j < Suc i. callback ((x # xs) ! j) = Inr False)"
        using i(1,2) by simp
      then show ?thesis by blast
    qed
  qed
  show ?case unfolding shift using Cons.IH
    by (cases "callback x") (auto split: sum.splits)
qed

lemma Array_find_returns:
  assumes "\<forall>x \<in> set xs. \<exists>b. callback x = Inr b"
  shows "\<exists>found. Array_find callback xs = Inr found
           \<and> (found \<noteq> None) = (\<exists>x \<in> set xs. callback x = Inr True)"
  using assms by (induction xs) (auto split: sum.splits)

lemma verifyTxSignedBy_import_fails:
  assumes "Keypair_fromPublicKey lib account = Inl msg"
  shows "verifyTxSignedBy lib tx account = Inl (Error msg)"
  using assms by (simp add: verifyTxSignedBy_def)

lemma verifyTxSignedBy_imported:
  assumes "Keypair_fromPublicKey lib account = Inr keypair"
  shows "verifyTxSignedBy lib tx account =
     (case Array_find (\<lambda>sig. Keypair_verify lib keypair (Transaction_hash lib tx) (signature sig))
             (signatures tx) of
        Inl msg \<Rightarrow> Inl (Error msg)
      | Inr found \<Rightarrow> Inr (found \<noteq> None))"
  using assms by (simp add: verifyTxSignedBy_def)

text \<open>
  C6, as stated, fails: the function raises. With a string that is not an account id the
  key import throws, whatever signatures are attached and also when there are none; and
  with a signature of three bytes in front of the others the signature check throws
  before the genuine signatures are reached.
\<close>

theorem verifyTxSignedBy_raises_counterexample:
  "verifyTxSignedBy refLib refDecoded ''not an account id''
     = Inl (Error ''invalid encoded string'')
   \<and> verifyTxSignedBy refLib (refDecoded\<lparr>signatures := []\<rparr>) ''not an account id''
     = Inl (Error ''invalid encoded string'')
   \<and> verifyTxSignedBy refLib refMalformed ''GCLIENT'' = Inl (Error ''bad signature size'')"
  by code_simp

text \<open>
  C6, amended. When the library rejects the account id, \<^verbatim>\<open>verifyTxSignedBy\<close> raises the
  library's error. When the library imports it, the attached signatures are checked in
  order against the transaction's hash under the imported key: the result is \<open>true\<close>
  exactly when some signature verifies and every signature before it was checked and
  refused; it is \<open>false\<close> exactly when every signature is checked and refused; and the
  function raises exactly when the check throws on a signature and every signature before
  it was refused, with the error the check threw. So whenever the check throws on none of
  the attached signatures the result is a boolean, true exactly when some attached
  signature verifies; and a transaction without signatures gives \<open>false\<close>.
\<close>

theorem verifyTxSignedBy_outcome:
  "(Keypair_fromPublicKey lib account = Inl msg \<longrightarrow>
      verifyTxSignedBy lib tx account = Inl (Error msg))
   \<and> (Keypair_fromPublicKey lib account = Inr keypair \<longrightarrow>
        ((verifyTxSignedBy lib tx account = Inr True)
           = (\<exists>i < length (signatures tx).
                Keypair_verify lib keypair (Transaction_hash lib tx)
                  (signature (signatures tx ! i)) = Inr True
                \<and> (\<forall>j < i. Keypair_verify lib keypair (Transaction_hash lib tx)
                              (signature (signatures tx ! j)) = Inr False)))
      \<and> ((verifyTxSignedBy lib tx account = Inr False)
           = (\<forall>sig \<in> set (signatures tx).
                Keypair_verify lib keypair (Transaction_hash lib tx) (signature sig) = Inr False))
      \<and> (\<forall>e. (verifyTxSignedBy lib tx account = Inl e)
           = (\<exists>thrown. e = Error thrown
                \<and> (\<exists>i < length (signatures tx).
                     Keypair_verify lib keypair (Transaction_hash lib tx)
                       (signature (signatures tx ! i)) = Inl thrown
                     \<and> (\<forall>j < i. Keypair_verify lib keypair (Transaction_hash lib tx)
                                   (signature (signatures tx ! j)) = Inr False))))
      \<and> ((\<forall>sig \<in> set (signatures tx).
             \<exists>b. Keypair_verify lib keypair (Transaction_hash lib tx) (signature sig) = Inr b) \<longrightarrow>
           verifyTxSignedBy lib tx account =
             Inr (\<exists>sig \<in> set (signatures tx).
                    Keypair_verify lib keypair (Transaction_hash lib tx) (signature sig) = Inr True))
      \<and> verifyTxSignedBy lib (tx\<lparr>signatures := []\<rparr>) account = Inr False)"
proof (intro conjI impI)
  assume "Keypair_fromPublicKey lib account = Inl msg"
  then show "verifyTxSignedBy lib tx account = Inl (Error msg)"
    by (rule verifyTxSignedBy_import_fails)
next
  let ?check = "\<lambda>sig. Keypair_verify lib keypair (Transaction_hash lib tx) (signature sig)"
  assume k: "Keypair_fromPublicKey lib account = Inr keypair"
  note v = verifyTxSignedBy_imported [OF k, of tx]
  have "(verifyTxSignedBy lib tx account = Inr True)
          = (\<exists>x. Array_find ?check (signatures tx) = Inr (Some x))"
    unfolding v by (auto split: sum.splits)
  then show "(verifyTxSignedBy lib tx account = Inr True)
           = (\<exists>i < length (signatures tx). ?check (signatures tx ! i) = Inr True
                \<and> (\<forall>j < i. ?check (signatures tx ! j) = Inr False))"
    by (simp only: Array_find_accepts)
  have "(verifyTxSignedBy lib tx account = Inr False)
          = (Array_find ?check (signatures tx) = Inr None)"
    unfolding v by (auto split: sum.splits)
  then show "(verifyTxSignedBy lib tx account = Inr False)
           = (\<forall>sig \<in> set (signatures tx). ?check sig = Inr False)"
    by (simp only: Array_find_none)
  show "\<forall>e. (verifyTxSignedBy lib tx account = Inl e)
           = (\<exists>thrown. e = Error thrown
                \<and> (\<exists>i < length (signatures tx). ?check (signatures tx ! i) = Inl thrown
                     \<and> (\<forall>j < i. ?check (signatures tx ! j) = Inr False)))"
  proof
    fix e
    have "(verifyTxSignedBy lib tx account = Inl e)
          = (\<exists>thrown. e = Error thrown \<and> Array_find ?check (signatures tx) = Inl thrown)"
      unfolding v by (auto split: sum.splits)
    then show "(verifyTxSignedBy lib tx account = Inl e)
           = (\<exists>thrown. e = Error thrown
                \<and> (\<exists>i < length (signatures tx). ?check (signatures tx ! i) = Inl thrown
                     \<and> (\<forall>j < i. ?check (signatures tx ! j) = Inr False)))"
      by (simp only: Array_find_throws)
  qed
  show "verifyTxSignedBy lib tx account = Inr (\<exists>sig \<in> set (signatures tx). ?check sig = Inr True)"
    if "\<forall>sig \<in> set (signatures tx). \<exists>b. ?check sig = Inr b"
    using Array_find_returns [OF that] unfolding v by auto
  show "verifyTxSignedBy lib (tx\<lparr>signatures := []\<rparr>) account = Inr False"
    using k by (simp add: verifyTxSignedBy_def)
qed

theorem verifyTxSignedBy_outcome_witness:
  "verifyTxSignedBy refLib refDecoded ''not an account id'' = Inl (Error ''invalid encoded string'')
   \<and> verifyTxSignedBy refLib refDecoded ''GCLIENT'' = Inr True
   \<and> verifyTxSignedBy refLib refDecoded ''GOTHER'' = Inr False
   \<and> verifyTxSignedBy refLib (refDecoded\<lparr>signatures := []\<rparr>) ''GCLIENT'' = Inr False"
proof -
  have bad: "Keypair_fromPublicKey refLib ''not an account id'' = Inl ''invalid encoded string''"
    by (simp add: refLib_def)
  have client: "Keypair_fromPublicKey refLib ''GCLIENT'' = Inr ''GCLIENT''"
    by (simp add: refLib_def)
  have other: "Keypair_fromPublicKey refLib ''GOTHER'' = Inr ''GOTHER''"
    by (simp add: refLib_def)
  have sigs: "signatures refDecoded =
      [Keypair_signDecorated refLib ''GSERVER'' (Transaction_hash refLib refDecoded),
       Keypair_signDecorated refLib ''GCLIENT'' (Transaction_hash refLib refDecoded)]"
    by (simp add: refDecoded_def refSigned_def refChallenge_def clientSigns_def
        toEnvelopeXDR_def Transaction_sign_def Transaction_fromEnvelope_def
        Transaction_hash_def buildChallengeTx_def Let_def TransactionBuilder_build_def)
  have len: "length (pad32 bs) = 32" for bs
    by (simp add: pad32_def)
  have ids: "pad32 (bytesOf ''GSERVER'') \<noteq> pad32 (bytesOf ''GCLIENT'')"
    "pad32 (bytesOf ''GSERVER'') \<noteq> pad32 (bytesOf ''GOTHER'')"
    "pad32 (bytesOf ''GCLIENT'') \<noteq> pad32 (bytesOf ''GOTHER'')"
    by (simp_all add: pad32_def bytesOf_def)
  have checks: "\<forall>sig \<in> set (signatures refDecoded).
      \<exists>b. Keypair_verify refLib k (Transaction_hash refLib refDecoded) (signature sig) = Inr b" for k
    unfolding sigs by (simp add: refLib_def len)
  have yes: "\<exists>sig \<in> set (signatures refDecoded).
      Keypair_verify refLib ''GCLIENT'' (Transaction_hash refLib refDecoded) (signature sig)
        = Inr True"
    unfolding sigs by (simp add: refLib_def len)
  have no: "\<not> (\<exists>sig \<in> set (signatures refDecoded).
      Keypair_verify refLib ''GOTHER'' (Transaction_hash refLib refDecoded) (signature sig)
        = Inr True)"
    unfolding sigs using ids by (simp add: refLib_def len)
  show ?thesis
    using verifyTxSignedBy_outcome [where lib = refLib and tx = refDecoded
        and account = "''not an account id''" and msg = "''invalid encoded string''"]
      verifyTxSignedBy_outcome [where lib = refLib and tx = refDecoded
        and account = "''GCLIENT''" and keypair = "''GCLIENT''"]
      verifyTxSignedBy_outcome [where lib = refLib and tx = refDecoded
        and account = "''GOTHER''" and keypair = "''GOTHER''"]
      bad client other checks yes no
    by simp
qed

lemma validateTimebounds_decimal:
  "validateTimebounds now (tx\<lparr>timeBounds := Some \<lparr>minTime = decimal lo, maxTime = decimal hi\<rparr>\<rparr>)
     = (lo \<le> now \<and> now \<le> hi)"
  by (simp add: validateTimebounds_def parseInt10_decimal)

lemma timeBounds_buildChallengeTx:
  "timeBounds (buildChallengeTx lib entropy now kp client realm seconds np) =
     Some \<lparr>minTime = decimal now,
           maxTime = decimal (now + (case seconds of None \<Rightarrow> 300 | Some t \<Rightarrow> t))\<rparr>"
  by (simp add: buildChallengeTx_def Let_def toEnvelopeXDR_def Transaction_sign_def
      TransactionBuilder_build_def)

text \<open>
  C10. The validity window is closed at both ends: with time bounds \<open>[lo, hi]\<close> the check
  passes exactly when \<open>lo \<le> now \<le> hi\<close>; a freshly built challenge still passes at
  build time plus timeout; a transaction without time bounds never passes.
\<close>

theorem validateTimebounds_inclusive:
  "validateTimebounds now (tx\<lparr>timeBounds := Some \<lparr>minTime = decimal lo, maxTime = decimal hi\<rparr>\<rparr>)
     = (lo \<le> now \<and> now \<le> hi)
   \<and> validateTimebounds (built + t)
        (Transaction_fromEnvelope
           (buildChallengeTx lib entropy built kp client realm (Some t) np) np) = True
   \<and> validateTimebounds now (tx\<lparr>timeBounds := None\<rparr>) = False"
proof -
  have "validateTimebounds (built + t)
        (Transaction_fromEnvelope
           (buildChallengeTx lib entropy built kp client realm (Some t) np) np) = True"
    by (simp add: validateTimebounds_def Transaction_fromEnvelope_def
        timeBounds_buildChallengeTx parseInt10_decimal)
  moreover have "validateTimebounds now (tx\<lparr>timeBounds := None\<rparr>) = False"
    by (simp add: validateTimebounds_def)
  ultimately show ?thesis
    by (simp add: validateTimebounds_decimal)
qed

lemma operations_buildChallengeTx:
  "operations (buildChallengeTx lib entropy now kp client realm seconds np) =
     [\<lparr>op_type = ''manageData'', op_source = Some client, op_name = Some (realm @ '' auth''),
       op_value = Some (Buffer_toString_base64 (randombytes entropy 48))\<rparr>]"
  by (simp add: buildChallengeTx_def Let_def toEnvelopeXDR_def Transaction_sign_def
      TransactionBuilder_build_def Operation_manageData_def)

lemma parseInt10_minus_one: "parseInt10 ''-1'' = Some (- 1)"
  by (simp add: parseInt10_def isWhiteSpace_def parseDigits_def isDigit_def digitsValue_def
      digitValue_def)

lemma decimal_0: "decimal 0 = ''0''"
  by code_simp

lemma parseInt10_0: "parseInt10 ''0'' = Some 0"
  using parseInt10_decimal [of 0] by (simp add: decimal_0)

lemma sequence_buildChallengeTx:
  "sequence (buildChallengeTx lib entropy now kp client realm seconds np) = ''0''"
  by (simp add: buildChallengeTx_def Let_def toEnvelopeXDR_def Transaction_sign_def
      TransactionBuilder_build_def parseInt10_minus_one decimalInt_def decimal_0)

lemma source_buildChallengeTx:
  "source (buildChallengeTx lib entropy now kp client realm seconds np) = Keypair_publicKey lib kp"
  by (simp add: buildChallengeTx_def Let_def toEnvelopeXDR_def Transaction_sign_def
      TransactionBuilder_build_def)

lemma signatures_buildChallengeTx:
  "signatures (buildChallengeTx lib entropy now kp client realm seconds np) =
     [Keypair_signDecorated lib kp
        (Transaction_hash lib
           (Transaction_fromEnvelope (buildChallengeTx lib entropy now kp client realm seconds np) np))]"
  by (simp add: buildChallengeTx_def Let_def toEnvelopeXDR_def Transaction_sign_def
      TransactionBuilder_build_def Transaction_hash_def Transaction_fromEnvelope_def)

lemma msg_distinct:
  "distinct [msgSequence, msgSource, msgOneOperation, msgOperationSource, msgManageData,
     msgValueLength, msgServerSignature, msgClientSignature, msgExpired]"
  by (simp add: msgSequence_def msgSource_def msgOneOperation_def msgOperationSource_def
      msgManageData_def msgValueLength_def msgServerSignature_def msgClientSignature_def
      msgExpired_def)

text \<open>
  Whenever every operation of the envelope carries a value and the signature checks
  return, the source function is the specification's first-failing-check function.
\<close>

lemma verifyChallengeTx_first_failure:
  assumes "list_all (\<lambda>operation. op_value operation \<noteq> None) (operations challengeTx)"
    and "\<forall>account. \<exists>b. verifyTxSignedBy lib (Transaction_fromEnvelope challengeTx np) account = Inr b"
  shows "verifyChallengeTx lib now challengeTx serverAccountId np =
         verify_challenge_spec lib now challengeTx serverAccountId np"
proof (cases "operations challengeTx")
  case Nil
  then show ?thesis
    by (simp add: verifyChallengeTx_def verify_challenge_spec_def challengeChecks_def
        firstFailure_def Let_def Transaction_fromEnvelope_def onOperation_def)
next
  case (Cons operation rest)
  then obtain v where v: "op_value operation = Some v" using assms by auto
  obtain byServer where s:
    "verifyTxSignedBy lib (Transaction_fromEnvelope challengeTx np) serverAccountId = Inr byServer"
    using assms(2) by blast
  show ?thesis
  proof (cases rest)
    case Nil
    show ?thesis
    proof (cases "op_source operation")
      case None
      then show ?thesis using Cons Nil v
        by (simp add: verifyChallengeTx_def verify_challenge_spec_def challengeChecks_def
            firstFailure_def Let_def Transaction_fromEnvelope_def onOperation_def
            sourceMissing_def)
    next
      case (Some client)
      obtain byClient where c:
        "verifyTxSignedBy lib (Transaction_fromEnvelope challengeTx np) client = Inr byClient"
        using assms(2) by blast
      show ?thesis using Cons Nil v Some s c
        by (simp add: verifyChallengeTx_def verify_challenge_spec_def challengeChecks_def
            firstFailure_def Let_def Transaction_fromEnvelope_def onOperation_def
            sourceMissing_def)
    qed
  next
    case (Cons operation' rest')
    then show ?thesis using \<open>operations challengeTx = operation # rest\<close>
      by (simp add: verifyChallengeTx_def verify_challenge_spec_def challengeChecks_def
        firstFailure_def Let_def Transaction_fromEnvelope_def onOperation_def)
  qed
qed

text \<open>
  What the library throws inside a signature check leaves \<^verbatim>\<open>verifyChallengeTx\<close> as it is:
  here the signed challenge with a signature of three bytes in front.
\<close>

lemma verifyChallengeTx_library_error:
  "verifyChallengeTx refLib 1000 malformedChallenge ''GSERVER'' refNetwork =
     Inl (Error ''bad signature size'')"
  by code_simp

text \<open>
  C1. The claim fails on an envelope the code can receive: a single metadata-write
  operation with a source account and no value (the ledger's delete-entry form), here
  signed by server and client and inside its time window. Checks one to five pass; the
  specification's sixth check gives the value-length reason, but the source dereferences
  the absent value and raises \<^verbatim>\<open>TypeError\<close> instead of \<^verbatim>\<open>InvalidSep10ChallengeError\<close>.
\<close>

theorem verifyChallengeTx_absent_value:
  "verifyChallengeTx refLib 1000 noValueChallenge ''GSERVER'' refNetwork =
     Inl (TypeError ''Cannot read property 'toString' of undefined'')
   \<and> verify_challenge_spec refLib 1000 noValueChallenge ''GSERVER'' refNetwork =
     Inl (InvalidSep10ChallengeError
       ''The transaction's operation value should be a 64 bytes base64 random string'')"
  by code_simp





text \<open>
  C3, as stated, fails: a challenge as \<^verbatim>\<open>buildChallengeTx\<close> returns it carries the
  server's signature only, and verifying it at once ends with the client-signature error.
\<close>

theorem verify_unsigned_by_client_counterexample:
  "verifyChallengeTx refLib 1000 refChallenge ''GSERVER'' refNetwork =
     Inl (InvalidSep10ChallengeError ''The transaction is not signed by the client'')"
  by code_simp

lemma signatures_clientSigns:
  "signatures (Transaction_fromEnvelope
      (clientSigns lib clientKeypair np
         (buildChallengeTx lib entropy now serverKeypair client realm seconds np)) np) =
     [Keypair_signDecorated lib serverKeypair
        (Transaction_hash lib (Transaction_fromEnvelope
           (clientSigns lib clientKeypair np
              (buildChallengeTx lib entropy now serverKeypair client realm seconds np)) np)),
      Keypair_signDecorated lib clientKeypair
        (Transaction_hash lib (Transaction_fromEnvelope
           (clientSigns lib clientKeypair np
              (buildChallengeTx lib entropy now serverKeypair client realm seconds np)) np))]"
  by (simp add: clientSigns_def buildChallengeTx_def Let_def toEnvelopeXDR_def
      Transaction_sign_def Transaction_fromEnvelope_def Transaction_hash_def
      TransactionBuilder_build_def)

lemma verifyTxSignedBy_first:
  assumes "Keypair_fromPublicKey lib account = Inr key"
    and "signatures tx = first # others"
    and "Keypair_verify lib key (Transaction_hash lib tx) (signature first) = Inr True"
  shows "verifyTxSignedBy lib tx account = Inr True"
  using assms by (simp add: verifyTxSignedBy_def)

lemma verifyTxSignedBy_second:
  assumes "Keypair_fromPublicKey lib account = Inr key"
    and "signatures tx = first # second # others"
    and "Keypair_verify lib key (Transaction_hash lib tx) (signature first) = Inr b"
    and "Keypair_verify lib key (Transaction_hash lib tx) (signature second) = Inr True"
  shows "verifyTxSignedBy lib tx account = Inr True"
  using assms by (simp add: verifyTxSignedBy_def)

text \<open>
  C3, amended. Let the library import the public keys it exports, let its signatures
  verify under the signer's own public key, let the check of a signature it made return
  rather than throw, and let the client's account id be a non-empty string. A challenge
  built at \<open>now\<close> with timeout \<open>T\<close>, then signed by the client, verifies at every time
  from \<open>now\<close> to \<open>now + T\<close>, and fails with the expiry reason at \<open>now + T + 1\<close>.
\<close>

theorem challenge_roundtrip:
  assumes "Keypair_fromPublicKey lib (Keypair_publicKey lib serverKeypair) = Inr serverKey"
    and "Keypair_fromPublicKey lib (Keypair_publicKey lib clientKeypair) = Inr clientKey"
    and "\<forall>data. Keypair_verify lib serverKey data
             (signature (Keypair_signDecorated lib serverKeypair data)) = Inr True"
    and "\<forall>data. Keypair_verify lib clientKey data
             (signature (Keypair_signDecorated lib clientKeypair data)) = Inr True"
    and "\<forall>data. \<exists>b. Keypair_verify lib clientKey data
             (signature (Keypair_signDecorated lib serverKeypair data)) = Inr b"
    and "Keypair_publicKey lib clientKeypair \<noteq> []"
    and "d \<le> T"
  shows "verifyChallengeTx lib (now + d)
           (clientSigns lib clientKeypair np
              (buildChallengeTx lib entropy now serverKeypair (Keypair_publicKey lib clientKeypair)
                 anchorName (Some T) np))
           (Keypair_publicKey lib serverKeypair) np = Inr True
       \<and> verifyChallengeTx lib (now + T + 1)
           (clientSigns lib clientKeypair np
              (buildChallengeTx lib entropy now serverKeypair (Keypair_publicKey lib clientKeypair)
                 anchorName (Some T) np))
           (Keypair_publicKey lib serverKeypair) np =
           Inl (InvalidSep10ChallengeError ''The transaction has expired'')"
proof -
  let ?challenge = "buildChallengeTx lib entropy now serverKeypair
    (Keypair_publicKey lib clientKeypair) anchorName (Some T) np"
  let ?signed = "clientSigns lib clientKeypair np ?challenge"
  let ?tx = "Transaction_fromEnvelope ?signed np"
  have fields: "sequence ?tx = ''0''" "source ?tx = Keypair_publicKey lib serverKeypair"
    "operations ?tx = operations ?challenge"
    "timeBounds ?tx = Some \<lparr>minTime = decimal now, maxTime = decimal (now + T)\<rparr>"
    by (simp_all add: clientSigns_def toEnvelopeXDR_def Transaction_sign_def
        Transaction_fromEnvelope_def sequence_buildChallengeTx source_buildChallengeTx
        timeBounds_buildChallengeTx)
  have sigs: "signatures ?tx =
     [Keypair_signDecorated lib serverKeypair (Transaction_hash lib ?tx),
      Keypair_signDecorated lib clientKeypair (Transaction_hash lib ?tx)]"
    by (rule signatures_clientSigns)
  have server: "verifyTxSignedBy lib ?tx (Keypair_publicKey lib serverKeypair) = Inr True"
    by (rule verifyTxSignedBy_first [OF assms(1) sigs]) (simp add: assms(3))
  obtain b where b: "Keypair_verify lib clientKey (Transaction_hash lib ?tx)
      (signature (Keypair_signDecorated lib serverKeypair (Transaction_hash lib ?tx))) = Inr b"
    using assms(5) by blast
  have client: "verifyTxSignedBy lib ?tx (Keypair_publicKey lib clientKeypair) = Inr True"
    by (rule verifyTxSignedBy_second [OF assms(2) sigs b]) (simp add: assms(4))
  have len: "length (Buffer_from_base64 (Buffer_toString_base64 (randombytes entropy 48))) = 48"
    by (simp only: base64_roundtrip length_randombytes)
  have tb: "\<And>t. validateTimebounds t ?tx = (now \<le> t \<and> t \<le> now + T)"
    by (auto simp add: validateTimebounds_def fields parseInt10_decimal)
  have "\<And>t. verifyChallengeTx lib t ?signed (Keypair_publicKey lib serverKeypair) np =
          (if now \<le> t \<and> t \<le> now + T then Inr True
           else Inl (InvalidSep10ChallengeError msgExpired))"
    unfolding verifyChallengeTx_def Let_def
    using server client len assms(6)
    by (simp add: fields tb operations_buildChallengeTx parseInt10_0 sourceMissing_def)
  then show ?thesis using assms(7) by (simp add: msgExpired_def)
qed

theorem challenge_roundtrip_witness:
  "verifyChallengeTx refLib 1000 refSigned ''GSERVER'' refNetwork = Inr True
   \<and> verifyChallengeTx refLib 1300 refSigned ''GSERVER'' refNetwork = Inr True
   \<and> verifyChallengeTx refLib 1301 refSigned ''GSERVER'' refNetwork =
       Inl (InvalidSep10ChallengeError ''The transaction has expired'')"
proof -
  have len: "length (pad32 bs) = 32" for bs
    by (simp add: pad32_def)
  have si: "Keypair_fromPublicKey refLib (Keypair_publicKey refLib ''GSERVER'') = Inr ''GSERVER''"
    and ci: "Keypair_fromPublicKey refLib (Keypair_publicKey refLib ''GCLIENT'') = Inr ''GCLIENT''"
    by (simp_all add: refLib_def)
  have s: "\<forall>data. Keypair_verify refLib ''GSERVER'' data
             (signature (Keypair_signDecorated refLib ''GSERVER'' data)) = Inr True"
    and c: "\<forall>data. Keypair_verify refLib ''GCLIENT'' data
             (signature (Keypair_signDecorated refLib ''GCLIENT'' data)) = Inr True"
    and x: "\<forall>data. \<exists>b. Keypair_verify refLib ''GCLIENT'' data
             (signature (Keypair_signDecorated refLib ''GSERVER'' data)) = Inr b"
    by (simp_all add: refLib_def len)
  have n: "Keypair_publicKey refLib ''GCLIENT'' \<noteq> []"
    by (simp add: refLib_def)
  have pk: "Keypair_publicKey refLib ''GCLIENT'' = ''GCLIENT''"
    "Keypair_publicKey refLib ''GSERVER'' = ''GSERVER''"
    by (simp_all add: refLib_def)
  have d0: "(0::nat) \<le> 300" and d300: "(300::nat) \<le> 300" by simp_all
  show ?thesis
    using challenge_roundtrip [OF si ci s c x n d0, where np = refNetwork and entropy = refEntropy
        and now = 1000 and anchorName = "''SDF''"]
      challenge_roundtrip [OF si ci s c x n d300, where np = refNetwork and entropy = refEntropy
        and now = 1000 and anchorName = "''SDF''"]
    by (simp add: pk refSigned_def refChallenge_def)
qed

section \<open>Properties of the query builder\<close>

lemma parseLinks_Nil: "parseLinks [] fs = Inr (JObj fs)"
  by (simp add: parseLinks.simps)

lemma parseLinks_Cons_fetch:
  assumes "lookup fs key = JUndefined \<or> key \<notin> set JOINABLE"
  shows "parseLinks (key # keys) fs =
     parseLinks keys
       (AList.update key (JRequestFn (getProp (lookup fs ''_links'') key))
          (if lookup fs key \<noteq> JUndefined
           then AList.update (key @ ''_attr'') (lookup fs key) fs else fs))"
  using assms by (auto simp add: parseLinks.simps Let_def)

lemma parseLinks_Cons_embedded:
  assumes "lookup fs key \<noteq> JUndefined" and "key \<in> set JOINABLE"
  shows "parseLinks (key # keys) fs =
     (case parseRecord (lookup fs key) of
        Inl e \<Rightarrow> Inl e
      | Inr record \<Rightarrow>
          parseLinks keys
            (AList.update key (JEmbedded record)
               (AList.update (key @ ''_attr'') record
                  (AList.update (key @ ''_attr'') (lookup fs key) fs))))"
  using assms by (simp add: parseLinks.simps Let_def lookup_update)

lemma attr_neq: "key @ ''_attr'' \<noteq> ''transaction''" "key @ ''_attr'' \<noteq> ''_links''"
proof -
  have "last (key @ ''_attr'') = CHR ''r''" by simp
  then show "key @ ''_attr'' \<noteq> ''transaction''" "key @ ''_attr'' \<noteq> ''_links''"
    by (auto dest: arg_cong [where f = last])
qed

text \<open>Keys visited later leave a field alone.\<close>

lemma parseLinks_untouched:
  assumes "parseLinks keys fs = Inr json'" and "k \<notin> set keys"
    and "\<forall>key \<in> set keys. key @ ''_attr'' \<noteq> k"
  shows "getProp json' k = lookup fs k"
  using assms
proof (induction keys arbitrary: fs)
  case Nil
  then show ?case by (auto simp: parseLinks_Nil getProp_def)
next
  case (Cons key keys)
  show ?case
  proof (cases "lookup fs key \<noteq> JUndefined \<and> key \<in> set JOINABLE")
    case True
    then obtain emb where
      "parseLinks keys (AList.update key (JEmbedded emb)
               (AList.update (key @ ''_attr'') emb
                  (AList.update (key @ ''_attr'') (lookup fs key) fs))) = Inr json'"
      using Cons.prems(1) by (auto simp: parseLinks_Cons_embedded split: sum.splits)
    then have "getProp json' k = lookup (AList.update key (JEmbedded emb)
               (AList.update (key @ ''_attr'') emb
                  (AList.update (key @ ''_attr'') (lookup fs key) fs))) k"
      using Cons.prems by (intro Cons.IH) auto
    then show ?thesis using Cons.prems by (auto simp: lookup_update)
  next
    case False
    then have "parseLinks keys
       (AList.update key (JRequestFn (getProp (lookup fs ''_links'') key))
          (if lookup fs key \<noteq> JUndefined
           then AList.update (key @ ''_attr'') (lookup fs key) fs else fs)) = Inr json'"
      using Cons.prems(1) by (subst (asm) parseLinks_Cons_fetch) auto
    then have "getProp json' k = lookup (AList.update key (JRequestFn (getProp (lookup fs ''_links'') key))
          (if lookup fs key \<noteq> JUndefined
           then AList.update (key @ ''_attr'') (lookup fs key) fs else fs)) k"
      using Cons.prems by (intro Cons.IH) auto
    then show ?thesis using Cons.prems by (auto simp: lookup_update)
  qed
qed

text \<open>
  What the loop leaves under \<open>transaction\<close>, when that is one of the keys. The link the
  loop reads is \<^verbatim>\<open>json._links.transaction\<close> at the time it visits the key: a relation
  named \<^verbatim>\<open>_links\<close> visited earlier has replaced \<^verbatim>\<open>json._links\<close> by a closure, which has no
  member \<^verbatim>\<open>transaction\<close>.
\<close>

lemma parseLinks_transaction:
  assumes "parseLinks keys fs = Inr json'" and "distinct keys"
    and "''transaction'' \<in> set keys"
  shows "(lookup fs ''transaction'' \<noteq> JUndefined \<longrightarrow>
            (\<exists>record. parseRecord (lookup fs ''transaction'') = Inr record
                \<and> getProp json' ''transaction'' = JEmbedded record))
       \<and> (lookup fs ''transaction'' = JUndefined \<longrightarrow>
            getProp json' ''transaction'' =
              JRequestFn
                (if ''_links'' \<in> set (takeWhile (\<lambda>k. k \<noteq> ''transaction'') keys) then JUndefined
                 else getProp (lookup fs ''_links'') ''transaction''))"
  using assms
proof (induction keys arbitrary: fs)
  case Nil
  then show ?case by simp
next
  case (Cons key keys)
  show ?case
  proof (cases "key = ''transaction''")
    case True
    then have notin: "''transaction'' \<notin> set keys" using Cons.prems(2) by simp
    have attr: "\<forall>key \<in> set keys. key @ ''_attr'' \<noteq> ''transaction''"
      by (simp add: attr_neq)
    show ?thesis
    proof (cases "lookup fs ''transaction'' = JUndefined")
      case undef: True
      then have "parseLinks keys
         (AList.update ''transaction'' (JRequestFn (getProp (lookup fs ''_links'') ''transaction'')) fs)
           = Inr json'"
        using Cons.prems(1) True by (subst (asm) parseLinks_Cons_fetch) auto
      from parseLinks_untouched [OF this notin attr] undef True show ?thesis
        by (simp add: lookup_update)
    next
      case def: False
      then obtain emb where r: "parseRecord (lookup fs ''transaction'') = Inr emb"
        and rest: "parseLinks keys (AList.update ''transaction'' (JEmbedded emb)
               (AList.update (''transaction'' @ ''_attr'') emb
                  (AList.update (''transaction'' @ ''_attr'') (lookup fs ''transaction'') fs)))
               = Inr json'"
        using Cons.prems(1) True
        by (auto simp: parseLinks_Cons_embedded JOINABLE_def split: sum.splits)
      from parseLinks_untouched [OF rest notin attr] def r show ?thesis
        by (simp add: lookup_update)
    qed
  next
    case False
    then have nj: "key \<notin> set JOINABLE" by (simp add: JOINABLE_def)
    let ?fs = "AList.update key (JRequestFn (getProp (lookup fs ''_links'') key))
          (if lookup fs key \<noteq> JUndefined
           then AList.update (key @ ''_attr'') (lookup fs key) fs else fs)"
    have step: "parseLinks keys ?fs = Inr json'"
      using Cons.prems(1) nj by (subst (asm) parseLinks_Cons_fetch) auto
    have keep: "lookup ?fs ''transaction'' = lookup fs ''transaction''"
      using False attr_neq [of key] by (auto simp: lookup_update)
    have IH: "(lookup ?fs ''transaction'' \<noteq> JUndefined \<longrightarrow>
            (\<exists>record. parseRecord (lookup ?fs ''transaction'') = Inr record
                \<and> getProp json' ''transaction'' = JEmbedded record))
       \<and> (lookup ?fs ''transaction'' = JUndefined \<longrightarrow>
            getProp json' ''transaction'' =
              JRequestFn
                (if ''_links'' \<in> set (takeWhile (\<lambda>k. k \<noteq> ''transaction'') keys) then JUndefined
                 else getProp (lookup ?fs ''_links'') ''transaction''))"
      using step Cons.prems False by (intro Cons.IH) auto
    show ?thesis
    proof (cases "key = ''_links''")
      case True
      then have "lookup ?fs ''_links'' = JRequestFn (getProp (lookup fs ''_links'') key)"
        by (simp add: lookup_update)
      then have "getProp (lookup ?fs ''_links'') ''transaction'' = JUndefined"
        by (simp add: getProp_def lookup_def)
      then show ?thesis using IH True False unfolding keep by simp
    next
      case other: False
      then have "lookup ?fs ''_links'' = lookup fs ''_links''"
        using attr_neq [of key] by (auto simp: lookup_update)
      then show ?thesis using IH other False unfolding keep by simp
    qed
  qed
qed

text \<open>
  The loop fails only through the recursive call on an inline \<^verbatim>\<open>transaction\<close>.
\<close>

lemma parseLinks_succeeds:
  assumes "distinct keys"
    and "''transaction'' \<in> set keys \<longrightarrow> lookup fs ''transaction'' \<noteq> JUndefined \<longrightarrow>
           (\<exists>emb. parseRecord (lookup fs ''transaction'') = Inr emb)"
  shows "\<exists>json'. parseLinks keys fs = Inr json'"
  using assms
proof (induction keys arbitrary: fs)
  case Nil
  show ?case by (simp add: parseLinks_Nil)
next
  case (Cons key keys)
  show ?case
  proof (cases "lookup fs key \<noteq> JUndefined \<and> key \<in> set JOINABLE")
    case True
    then have key: "key = ''transaction''" by (simp add: JOINABLE_def)
    then obtain emb where emb: "parseRecord (lookup fs key) = Inr emb"
      using Cons.prems(2) True by auto
    have "''transaction'' \<notin> set keys" using Cons.prems(1) key by simp
    then have "\<exists>json'. parseLinks keys (AList.update key (JEmbedded emb)
            (AList.update (key @ ''_attr'') emb
               (AList.update (key @ ''_attr'') (lookup fs key) fs))) = Inr json'"
      using Cons.prems(1) by (intro Cons.IH) auto
    then show ?thesis using True emb by (simp add: parseLinks_Cons_embedded)
  next
    case False
    let ?fs = "AList.update key (JRequestFn (getProp (lookup fs ''_links'') key))
          (if lookup fs key \<noteq> JUndefined
           then AList.update (key @ ''_attr'') (lookup fs key) fs else fs)"
    have eq: "parseLinks (key # keys) fs = parseLinks keys ?fs"
      using False by (intro parseLinks_Cons_fetch) auto
    have "''transaction'' \<in> set keys \<longrightarrow> lookup ?fs ''transaction'' = lookup fs ''transaction''"
      using Cons.prems(1) attr_neq [of key] by (auto simp: lookup_update)
    then have "\<exists>json'. parseLinks keys ?fs = Inr json'"
      using Cons.prems by (intro Cons.IH) auto
    then show ?thesis unfolding eq .
  qed
qed

lemma lookup_delete:
  "lookup (AList.delete k fs) k' = (if k' = k then JUndefined else lookup fs k')"
  by (simp add: lookup_def delete_conv')

lemma parseRecord_JObj:
  "parseRecord (JObj fs) =
     (if \<not> truthy (lookup fs ''_links'') then Inr (JObj fs)
      else parseLinks (Object_keys (lookup fs ''_links'')) fs)"
  by (simp add: parseRecord.simps)

text \<open>
  Calling the fetching closure over a link: one GET for the URI \<open>uri\<close> computed from the
  link, and the promise carries the normalised response or the rejection of the failed
  request.
\<close>

lemma callAccessor_plain:
  assumes "\<not> nullish link" and "\<not> truthy (getProp link ''templated'')"
    and "URI_parse env (getProp link ''href'') = Inr uri"
  shows "callAccessor env builderUrl (JRequestFn link) opts w =
           ((case axios_get env (requests w) (requestUrl env builderUrl uri w) of
               HttpOk doc \<Rightarrow> parseResponse doc
             | HttpFailed err \<Rightarrow> Inl (handleNetworkError err)),
            w\<lparr>requests := requests w @ [requestUrl env builderUrl uri w],
              randomCalls := Suc (randomCalls w)\<rparr>)"
  using assms
  by (simp add: callAccessor_def requestFnForLink_def linkUri_def Let_def sendNormalRequest_def
      split: HttpResult.splits)

lemma callAccessor_templated:
  assumes "\<not> nullish link" and "truthy (getProp link ''templated'')"
    and "URITemplate_expand env (getProp link ''href'')
           (if opts = JUndefined then JObj [] else opts) = Inr expanded"
    and "URI_parse env expanded = Inr uri"
  shows "callAccessor env builderUrl (JRequestFn link) opts w =
           ((case axios_get env (requests w) (requestUrl env builderUrl uri w) of
               HttpOk doc \<Rightarrow> parseResponse doc
             | HttpFailed err \<Rightarrow> Inl (handleNetworkError err)),
            w\<lparr>requests := requests w @ [requestUrl env builderUrl uri w],
              randomCalls := Suc (randomCalls w)\<rparr>)"
  using assms
  by (simp add: callAccessor_def requestFnForLink_def linkUri_def Let_def sendNormalRequest_def
      split: HttpResult.splits)

lemma callAccessor_undefined:
  "callAccessor env builderUrl (JRequestFn JUndefined) opts w =
     (Inl (TypeError ''Cannot read property 'templated' of undefined''), w)"
  by (simp add: callAccessor_def requestFnForLink_def nullish_def)




lemma call_too_many:
  assumes "2 \<le> length (filter' b)"
  shows "call env b w = (Throws (BadRequestError ''Too many filters specified'' (filter' b)), b, w)"
  using assms by (simp add: call_def checkFilter_def)

lemma call_proceeds:
  assumes "length (filter' b) < 2"
  shows "\<exists>promise b'.
           call env b w =
             (Returns promise, b',
              w\<lparr>requests := requests w @ [url b'], randomCalls := Suc (randomCalls w)\<rparr>)
           \<and> segments (url b') =
               (if filter' b = [] then segments (url b) else originalSegments b @ hd (filter' b))"
proof (cases "filter' b")
  case Nil
  then show ?thesis
    by (simp add: call_def checkFilter_def sendNormalRequest_def Let_def requestUrl_def
        setQuery_def)
next
  case (Cons f fs)
  then have "fs = []" using assms by simp
  then show ?thesis using Cons
    by (simp add: call_def checkFilter_def sendNormalRequest_def Let_def requestUrl_def
        setQuery_def)
qed

text \<open>
  C2. With two or more filters \<^verbatim>\<open>call\<close> throws \<^verbatim>\<open>BadRequestError\<close> (the configuration
  error) itself, not through a promise, and the world is unchanged: no request has been
  issued. With at most one filter it returns a promise after exactly one GET, whose path
  is the builder's own with no filter and the original segments followed by the filter's
  components with one. The original segments are the server URL's, captured by the
  constructor before a subclass adds its resource name.
\<close>

theorem call_filter_check:
  "(2 \<le> length (filter' b) \<longrightarrow>
      call env b w = (Throws (BadRequestError ''Too many filters specified'' (filter' b)), b, w))
   \<and> (length (filter' b) < 2 \<longrightarrow>
        (\<exists>promise b'.
           call env b w =
             (Returns promise, b',
              w\<lparr>requests := requests w @ [url b'], randomCalls := Suc (randomCalls w)\<rparr>)
           \<and> segments (url b') =
               (if filter' b = [] then segments (url b) else originalSegments b @ hd (filter' b))))
   \<and> originalSegments (CallBuilder_new serverUrl) = segments serverUrl
   \<and> originalSegments (accountId' account (AccountCallBuilder_new serverUrl)) = segments serverUrl
   \<and> filter' (accountId' account (AccountCallBuilder_new serverUrl)) = [[''accounts'', account]]"
proof -
  have "originalSegments (CallBuilder_new serverUrl) = segments serverUrl"
    by (simp add: CallBuilder_new_def)
  moreover have "originalSegments (accountId' account (AccountCallBuilder_new serverUrl))
      = segments serverUrl"
    by (simp add: CallBuilder_new_def AccountCallBuilder_new_def accountId'_def Let_def)
  moreover have "filter' (accountId' account (AccountCallBuilder_new serverUrl))
      = [[''accounts'', account]]"
    by (simp add: CallBuilder_new_def AccountCallBuilder_new_def accountId'_def Let_def)
  ultimately show ?thesis
    using call_too_many [of b env w] call_proceeds [of b env w] by blast
qed

theorem call_filter_check_witness:
  "call refEnv (accountId' ''GB'' (accountId' ''GA'' (AccountCallBuilder_new refUrl))) refWorld =
     (Throws (BadRequestError ''Too many filters specified''
        [[''accounts'', ''GA''], [''accounts'', ''GB'']]),
      accountId' ''GB'' (accountId' ''GA'' (AccountCallBuilder_new refUrl)), refWorld)
   \<and> (\<exists>promise b'.
        call refEnv (accountId' ''GA'' (AccountCallBuilder_new refUrl)) refWorld =
          (Returns promise, b', \<lparr>requests = [url b'], randomCalls = 1\<rparr>)
        \<and> segments (url b') = [''accounts'', ''GA''])"
proof -
  let ?two = "accountId' ''GB'' (accountId' ''GA'' (AccountCallBuilder_new refUrl))"
  let ?one = "accountId' ''GA'' (AccountCallBuilder_new refUrl)"
  have f2: "filter' ?two = [[''accounts'', ''GA''], [''accounts'', ''GB'']]"
    by (simp add: accountId'_def AccountCallBuilder_new_def CallBuilder_new_def Let_def)
  have f1: "filter' ?one = [[''accounts'', ''GA'']]" "originalSegments ?one = []"
    by (simp_all add: accountId'_def AccountCallBuilder_new_def CallBuilder_new_def Let_def
        refUrl_def)
  have l2: "2 \<le> length (filter' ?two)" by (simp add: f2)
  have l1: "length (filter' ?one) < 2" by (simp add: f1)
  show ?thesis
    using call_filter_check [of ?two refEnv refWorld] call_filter_check [of ?one refEnv refWorld]
      l2 l1
    by (simp add: f1 f2 refWorld_def)
qed

text \<open>
  One call of a page's \<^verbatim>\<open>next\<close>: when the page's own document has a \<^verbatim>\<open>next\<close> link whose
  \<^verbatim>\<open>href\<close> the URI library reads as \<open>uri\<close>, exactly one GET is issued, for \<open>uri\<close>, and
  the promise carries the response turned into a page.
\<close>

lemma next_page_once:
  assumes "\<not> nullish (getProp json ''_links'')"
    and "\<not> nullish (getProp (getProp json ''_links'') ''next'')"
    and "URI_parse env (getProp (getProp (getProp json ''_links'') ''next'') ''href'') = Inr uri"
  shows "next_page env builderUrl (CollectionPage recs json) w =
     ((case axios_get env (requests w) (requestUrl env builderUrl uri w) of
         HttpOk doc \<Rightarrow> toCollectionPage doc
       | HttpFailed err \<Rightarrow> Inl (handleNetworkError err)),
      w\<lparr>requests := requests w @ [requestUrl env builderUrl uri w],
        randomCalls := Suc (randomCalls w)\<rparr>)"
  using assms
  by (simp add: next_page_def pageLink_def sendNormalRequest_def Let_def
      split: HttpResult.splits)

text \<open>The loop over the records succeeds exactly when each record normalises.\<close>

lemma parseRecords_list_all2:
  "(parseRecords rows = Inr recs) = list_all2 (\<lambda>r r'. parseRecord r = Inr r') rows recs"
proof (induction rows arbitrary: recs)
  case Nil
  show ?case by auto
next
  case (Cons r rows)
  show ?case
  proof (cases recs)
    case Nil
    then show ?thesis by (auto split: sum.splits)
  next
    case (Cons r' recs')
    then show ?thesis using Cons.IH [of recs'] by (auto split: sum.splits)
  qed
qed

text \<open>
  \<^verbatim>\<open>_toCollectionPage\<close> on a document with an array of records: the page holds the
  records normalised one by one, and its document is the one received with the records
  replaced.
\<close>

lemma toCollectionPage_records:
  assumes "lookup doc ''_embedded'' = JObj embedded"
    and "lookup embedded ''records'' = JArr rows"
    and "list_all2 (\<lambda>r r'. parseRecord r = Inr r') rows recs"
  shows "toCollectionPage (JObj doc) =
     Inr (CollectionPage (JArr recs)
       (JObj (AList.update ''_embedded''
          (JObj (AList.update ''records'' (JArr recs) embedded)) doc)))"
proof -
  have "parseRecords rows = Inr recs"
    using assms(3) by (simp add: parseRecords_list_all2)
  then show ?thesis using assms(1,2)
    by (simp add: toCollectionPage_def nullish_def getProp_def setProp_def)
qed

text \<open>
  C8. Let the first page's own document link to \<open>uri\<close>; let the peer answer that GET
  with a document whose \<^verbatim>\<open>_embedded.records\<close> is an array of records that normalise, one
  by one, to \<open>recs'\<close>, and whose own \<^verbatim>\<open>next\<close> link reads as \<open>uri'\<close>. Then \<^verbatim>\<open>next()\<close> on
  the first page issues one GET for \<open>uri\<close> and resolves to a new page: it holds the
  normalised records, and its document is the received one with the records replaced.
  \<^verbatim>\<open>next()\<close> on that page issues one more GET, for \<open>uri'\<close>, the link of the second
  document and not of the first, and resolves to the peer's answer turned into a page in
  the same way: for every answer with an array of records, \<^verbatim>\<open>_toCollectionPage\<close> gives the
  page of the records normalised one by one. And \<^verbatim>\<open>next()\<close> on the first page once more
  issues a GET for \<open>uri\<close> again: nothing is remembered.
\<close>

theorem next_page_not_memoized:
  assumes "\<not> nullish (getProp json ''_links'')"
    and "\<not> nullish (getProp (getProp json ''_links'') ''next'')"
    and "URI_parse env (getProp (getProp (getProp json ''_links'') ''next'') ''href'') = Inr uri"
    and "axios_get env (requests w) (requestUrl env builderUrl uri w) = HttpOk (JObj doc)"
    and "lookup doc ''_embedded'' = JObj embedded"
    and "lookup embedded ''records'' = JArr rows"
    and "list_all2 (\<lambda>r r'. parseRecord r = Inr r') rows recs'"
    and "json' = JObj (AList.update ''_embedded''
                   (JObj (AList.update ''records'' (JArr recs') embedded)) doc)"
    and "\<not> nullish (lookup doc ''_links'')"
    and "\<not> nullish (getProp (lookup doc ''_links'') ''next'')"
    and "URI_parse env (getProp (getProp (lookup doc ''_links'') ''next'') ''href'') = Inr uri'"
    and "w' = w\<lparr>requests := requests w @ [requestUrl env builderUrl uri w],
                  randomCalls := Suc (randomCalls w)\<rparr>"
  shows "next_page env builderUrl (CollectionPage recs json) w
           = (Inr (CollectionPage (JArr recs') json'), w')
       \<and> next_page env builderUrl (CollectionPage (JArr recs') json') w'
           = ((case axios_get env (requests w') (requestUrl env builderUrl uri' w') of
                 HttpOk answer \<Rightarrow> toCollectionPage answer
               | HttpFailed err \<Rightarrow> Inl (handleNetworkError err)),
              w'\<lparr>requests := requests w @ [requestUrl env builderUrl uri w,
                                             requestUrl env builderUrl uri' w'],
                 randomCalls := Suc (Suc (randomCalls w))\<rparr>)
       \<and> snd (next_page env builderUrl (CollectionPage recs json) w')
           = w'\<lparr>requests := requests w @ [requestUrl env builderUrl uri w,
                                           requestUrl env builderUrl uri w'],
                randomCalls := Suc (Suc (randomCalls w))\<rparr>
       \<and> (\<forall>answer inner items normal.
             lookup answer ''_embedded'' = JObj inner
             \<and> lookup inner ''records'' = JArr items
             \<and> list_all2 (\<lambda>r r'. parseRecord r = Inr r') items normal \<longrightarrow>
             toCollectionPage (JObj answer) =
               Inr (CollectionPage (JArr normal)
                 (JObj (AList.update ''_embedded''
                    (JObj (AList.update ''records'' (JArr normal) inner)) answer))))"
proof -
  have page: "toCollectionPage (JObj doc) = Inr (CollectionPage (JArr recs') json')"
    unfolding assms(8) using assms(5,6,7) by (rule toCollectionPage_records)
  have first: "next_page env builderUrl (CollectionPage recs json) w
           = (Inr (CollectionPage (JArr recs') json'), w')"
    using next_page_once [OF assms(1,2,3), of builderUrl recs w] assms(4,12) page by simp
  have own: "getProp json' ''_links'' = lookup doc ''_links''"
    unfolding assms(8) by (simp add: getProp_def lookup_update)
  have second: "next_page env builderUrl (CollectionPage (JArr recs') json') w'
           = ((case axios_get env (requests w') (requestUrl env builderUrl uri' w') of
                 HttpOk answer \<Rightarrow> toCollectionPage answer
               | HttpFailed err \<Rightarrow> Inl (handleNetworkError err)),
              w'\<lparr>requests := requests w @ [requestUrl env builderUrl uri w,
                                             requestUrl env builderUrl uri' w'],
                 randomCalls := Suc (Suc (randomCalls w))\<rparr>)"
    using next_page_once [of json' env uri' builderUrl "JArr recs'" w'] assms(9,10,11,12)
    unfolding own by simp
  have again: "snd (next_page env builderUrl (CollectionPage recs json) w')
           = w'\<lparr>requests := requests w @ [requestUrl env builderUrl uri w,
                                           requestUrl env builderUrl uri w'],
                randomCalls := Suc (Suc (randomCalls w))\<rparr>"
    using next_page_once [OF assms(1,2,3), of builderUrl recs w'] assms(12) by simp
  have normalised: "\<forall>answer inner items normal.
             lookup answer ''_embedded'' = JObj inner
             \<and> lookup inner ''records'' = JArr items
             \<and> list_all2 (\<lambda>r r'. parseRecord r = Inr r') items normal \<longrightarrow>
             toCollectionPage (JObj answer) =
               Inr (CollectionPage (JArr normal)
                 (JObj (AList.update ''_embedded''
                    (JObj (AList.update ''records'' (JArr normal) inner)) answer)))"
    using toCollectionPage_records by blast
  show ?thesis using first second again normalised by simp
qed

theorem next_page_not_memoized_witness:
  "next_page refEnv refUrl (CollectionPage (JArr [refRecordParsed ''1'']) (refPageParsed ''1'' ''1''))
      refWorld
     = (Inr (CollectionPage (JArr [refRecordParsed ''2'']) (refPageParsed ''2'' ''2'')),
        \<lparr>requests = [refRequest [''/operations?cursor=1''] 0], randomCalls = 1\<rparr>)
   \<and> next_page refEnv refUrl (CollectionPage (JArr [refRecordParsed ''2'']) (refPageParsed ''2'' ''2''))
        \<lparr>requests = [refRequest [''/operations?cursor=1''] 0], randomCalls = 1\<rparr>
     = (Inr (CollectionPage (JArr [refRecordParsed ''3'']) (refPageParsed ''3'' ''3'')),
        \<lparr>requests = [refRequest [''/operations?cursor=1''] 0,
                      refRequest [''/operations?cursor=2''] 1], randomCalls = 2\<rparr>)
   \<and> refRecordParsed ''2'' \<noteq> refRecord ''2''"
proof -
  let ?u1 = "\<lparr>protocol = [], authority = [], segments = [''/operations?cursor=1''], query = []\<rparr>"
  let ?u2 = "\<lparr>protocol = [], authority = [], segments = [''/operations?cursor=2''], query = []\<rparr>"
  let ?w1 = "\<lparr>requests = [refRequest [''/operations?cursor=1''] 0], randomCalls = 1\<rparr>"
  have a1: "\<not> nullish (getProp (refPageParsed ''1'' ''1'') ''_links'')"
    and a2: "\<not> nullish (getProp (getProp (refPageParsed ''1'' ''1'') ''_links'') ''next'')"
    and a9: "\<not> nullish (lookup (refPage ''2'' ''2'') ''_links'')"
    and a10: "\<not> nullish (getProp (lookup (refPage ''2'' ''2'') ''_links'') ''next'')"
    by (simp_all add: refPage_def refPageParsed_def refPageLinks_def getProp_def lookup_def
        nullish_def)
  have a3: "URI_parse refEnv
      (getProp (getProp (getProp (refPageParsed ''1'' ''1'') ''_links'') ''next'') ''href'') = Inr ?u1"
    and a11: "URI_parse refEnv
      (getProp (getProp (lookup (refPage ''2'' ''2'') ''_links'') ''next'') ''href'') = Inr ?u2"
    by (simp_all add: refPage_def refPageParsed_def refPageLinks_def getProp_def lookup_def
        refEnv_def)
  have r1: "requestUrl refEnv refUrl ?u1 refWorld = refRequest [''/operations?cursor=1''] 0"
    and r2: "requestUrl refEnv refUrl ?u2 ?w1 = refRequest [''/operations?cursor=2''] 1"
    by code_simp+
  have a4: "axios_get refEnv (requests refWorld) (requestUrl refEnv refUrl ?u1 refWorld)
      = HttpOk (JObj (refPage ''2'' ''2''))"
    unfolding r1 by code_simp
  have a5: "lookup (refPage ''2'' ''2'') ''_embedded'' = JObj [(''records'', JArr [refRecord ''2''])]"
    and a6: "lookup [(''records'', JArr [refRecord ''2''])] ''records'' = JArr [refRecord ''2'']"
    by (simp_all add: refPage_def lookup_def)
  have norm: "parseRecord (refRecord ''2'') = Inr (refRecordParsed ''2'')"
    by code_simp
  then have a7: "list_all2 (\<lambda>r r'. parseRecord r = Inr r') [refRecord ''2''] [refRecordParsed ''2'']"
    by simp
  have a8: "refPageParsed ''2'' ''2'' = JObj (AList.update ''_embedded''
      (JObj (AList.update ''records'' (JArr [refRecordParsed ''2''])
         [(''records'', JArr [refRecord ''2''])])) (refPage ''2'' ''2''))"
    by (simp add: refPage_def refPageParsed_def)
  have a12: "?w1 = refWorld\<lparr>requests := requests refWorld @ [requestUrl refEnv refUrl ?u1 refWorld],
                  randomCalls := Suc (randomCalls refWorld)\<rparr>"
    unfolding r1 by (simp add: refWorld_def)
  have third: "(case axios_get refEnv (requests ?w1) (refRequest [''/operations?cursor=2''] 1) of
                 HttpOk answer \<Rightarrow> toCollectionPage answer
               | HttpFailed err \<Rightarrow> Inl (handleNetworkError err))
      = Inr (CollectionPage (JArr [refRecordParsed ''3'']) (refPageParsed ''3'' ''3''))"
    by code_simp
  have differ: "refRecordParsed ''2'' \<noteq> refRecord ''2''"
    by (simp add: refRecordParsed_def refRecord_def)
  note T = next_page_not_memoized [OF a1 a2 a3 a4 a5 a6 a7 a8 a9 a10 a11 a12,
        where recs = "JArr [refRecordParsed ''1'']"]
  show ?thesis
    using T [unfolded r1 r2 third] differ by (simp add: refWorld_def)
qed

section \<open>Properties of the push subscription\<close>

lemma onerrorCalls_createEventSource:
  "onerrorCalls (createEventSource construct options s) =
     onerrorCalls s @
       (case construct (length (attempts s)) (streamUrl s) of
          None \<Rightarrow> []
        | Some e \<Rightarrow> if onerror options then [Thrown e] else [])"
  by (simp add: createEventSource_def createTimeout_def Let_def split: option.splits)

lemma onerrorCalls_timerCallback:
  "onerrorCalls (timerCallback construct options s) =
     onerrorCalls s @
       (case construct (length (attempts s)) (streamUrl s) of
          None \<Rightarrow> []
        | Some e \<Rightarrow> if onerror options then [Thrown e] else [])"
  by (simp add: timerCallback_def onerrorCalls_createEventSource es_close_def
      split: option.splits)

lemma timerCallback_closes:
  "es s = Some c \<Longrightarrow> c \<in> set (closed (timerCallback construct options s))"
  by (simp add: timerCallback_def createEventSource_def createTimeout_def es_close_def Let_def
      split: option.splits)

lemma timerCallback_timers:
  "timers (timerCallback construct options s) =
     timers s @ [(nextTimer s, clock s + reconnectDelay options)]"
  by (simp add: timerCallback_def createEventSource_def createTimeout_def es_close_def Let_def
      split: option.splits)

lemma timerCallback_connects:
  assumes "construct (length (attempts s)) (streamUrl s) = None"
    and "list_all (\<lambda>c. c < length (attempts s)) (closed s)"
    and "\<forall>c. es s = Some c \<longrightarrow> c < length (attempts s)"
  shows "es (timerCallback construct options s) = Some (length (attempts s))
       \<and> length (attempts s) \<notin> set (closed (timerCallback construct options s))
       \<and> length (attempts s) \<in> set (listening (timerCallback construct options s))
       \<and> attempts (timerCallback construct options s) = attempts s @ [streamUrl s]"
  using assms
  by (auto simp add: timerCallback_def createEventSource_def createTimeout_def es_close_def
      Let_def list_all_iff split: option.splits)

lemma onerrorCalls_createTimeout [simp]:
  "onerrorCalls (createTimeout options s) = onerrorCalls s"
  by (simp add: createTimeout_def)

lemma onerrorCalls_clearTimeout [simp]:
  "onerrorCalls (clearTimeout s) = onerrorCalls s"
  by (simp add: clearTimeout_def split: option.splits)

lemma onerrorCalls_onMessage: "onerrorCalls (onMessage options msg s) = onerrorCalls s"
proof (cases "if truthy (getProp (raw msg) ''data'')
            then (case parsed msg of Inl e \<Rightarrow> Inl e | Inr json \<Rightarrow> parseRecord json)
            else Inr (raw msg)")
  case (Inl e)
  then show ?thesis unfolding onMessage_def by simp
next
  case (Inr result)
  then show ?thesis unfolding onMessage_def by (simp add: Let_def)
qed

lemma onMessage_pow_onerrorCalls:
  "onerrorCalls (((onMessage options msg) ^^ n) s) = onerrorCalls s"
  by (induction n) (simp_all add: onerrorCalls_onMessage)

lemma onError_pow_onerrorCalls:
  "set (onerrorCalls (((onError options err) ^^ n) s)) \<subseteq> insert (ErrorEvent err) (set (onerrorCalls s))"
proof (induction n)
  case 0
  then show ?case by auto
next
  case (Suc n)
  then show ?case by (auto simp add: onError_def)
qed

lemma onerrorCalls_close: "onerrorCalls (close s) = onerrorCalls s"
  by (simp add: close_def es_close_def clearTimeout_def split: option.splits)

lemma genuine_mono: "genuine construct evs r \<Longrightarrow> genuine construct (ev # evs) r"
  by (auto simp: genuine_def split: Reported.splits)

lemma step_genuine:
  assumes "step construct options ev s = Some s'" and "r \<in> set (onerrorCalls s')"
  shows "r \<in> set (onerrorCalls s) \<or> genuine construct [ev] r"
proof (cases ev)
  case (TimerDue i)
  then obtain d where s': "s' = timerCallback construct options
      (s\<lparr>timers := filter (\<lambda>p. fst p \<noteq> i) (timers s), clock := d\<rparr>)"
    using assms(1) by (auto simp: step_def split: option.splits if_splits)
  have "onerrorCalls s' = onerrorCalls s @
       (case construct (length (attempts s)) (streamUrl s) of
          None \<Rightarrow> []
        | Some e \<Rightarrow> if onerror options then [Thrown e] else [])"
    unfolding s' by (simp add: onerrorCalls_timerCallback)
  then have "r \<in> set (onerrorCalls s)
      \<or> (\<exists>e. r = Thrown e \<and> construct (length (attempts s)) (streamUrl s) = Some e)"
    using assms(2) by (auto split: option.splits if_splits)
  then show ?thesis by (auto simp: genuine_def)
next
  case (MessageArrives t c msg)
  then show ?thesis using assms
    by (auto simp: step_def onMessage_pow_onerrorCalls split: if_splits)
next
  case (ErrorArrives t c err)
  then have s': "s' = ((onError options err) ^^ count_list (listening s) c) (s\<lparr>clock := t\<rparr>)"
    using assms(1) by (auto simp: step_def split: if_splits)
  have "set (onerrorCalls s') \<subseteq> insert (ErrorEvent err) (set (onerrorCalls (s\<lparr>clock := t\<rparr>)))"
    unfolding s' by (rule onError_pow_onerrorCalls)
  then have "r = ErrorEvent err \<or> r \<in> set (onerrorCalls s)"
    using assms(2) by auto
  then show ?thesis using ErrorArrives by (auto simp: genuine_def)
next
  case (CloseCalled t)
  then show ?thesis using assms
    by (auto simp: step_def onerrorCalls_close split: if_splits)
qed

lemma genuine_Cons: "genuine construct [ev] r \<Longrightarrow> genuine construct (ev # evs) r"
  by (auto simp: genuine_def split: Reported.splits)

lemma run_genuine:
  assumes "run construct options evs s = Some s'" and "r \<in> set (onerrorCalls s')"
  shows "r \<in> set (onerrorCalls s) \<or> genuine construct evs r"
  using assms
proof (induction evs arbitrary: s)
  case Nil
  then show ?case by simp
next
  case (Cons ev evs)
  then obtain s1 where s1: "step construct options ev s = Some s1"
    and rest: "run construct options evs s1 = Some s'"
    by (auto split: option.splits)
  from Cons.IH [OF rest Cons.prems(2)]
  have "r \<in> set (onerrorCalls s1) \<or> genuine construct evs r" .
  then show ?case
  proof
    assume "r \<in> set (onerrorCalls s1)"
    from step_genuine [OF s1 this] show ?thesis by (auto intro: genuine_Cons)
  next
    assume "genuine construct evs r"
    then show ?thesis by (auto intro: genuine_mono)
  qed
qed

lemma timerInvariant_createEventSource:
  assumes "timers s = []"
    and "list_all (\<lambda>c. c < length (attempts s)) (closed s)"
    and "\<forall>c. es s = Some c \<longrightarrow> c < length (attempts s)"
  shows "timerInvariant (createEventSource construct options s)"
  using assms
  by (auto simp add: timerInvariant_def createEventSource_def createTimeout_def Let_def
      list_all_iff split: option.splits)

lemma timerInvariant_timerCallback:
  assumes "timers s = []"
    and "list_all (\<lambda>c. c < length (attempts s)) (closed s)"
    and "\<forall>c. es s = Some c \<longrightarrow> c < length (attempts s)"
  shows "timerInvariant (timerCallback construct options s)"
  unfolding timerCallback_def
  using assms
  by (intro timerInvariant_createEventSource)
    (auto simp add: es_close_def list_all_iff split: option.splits)

lemma timerInvariant_rearm:
  assumes "timerInvariant s"
  shows "timerInvariant (createTimeout options (clearTimeout s))"
    and "timers (createTimeout options (clearTimeout s)) =
           [(nextTimer s, clock s + reconnectDelay options)]"
  using assms
  by (auto simp add: timerInvariant_def createTimeout_def clearTimeout_def split: option.splits)

lemma timerInvariant_onMessage:
  assumes "timerInvariant s"
  shows "timerInvariant (onMessage options msg s)"
proof (cases "if truthy (getProp (raw msg) ''data'')
            then (case parsed msg of Inl e \<Rightarrow> Inl e | Inr json \<Rightarrow> parseRecord json)
            else Inr (raw msg)")
  case (Inl e)
  then show ?thesis using assms unfolding onMessage_def by (simp add: timerInvariant_def)
next
  case (Inr result)
  let ?s = "if truthy (getProp result ''paging_token'')
            then s\<lparr>streamUrl := setQuery ''cursor''
                   (cursorText (getProp result ''paging_token'')) (streamUrl s)\<rparr>
            else s"
  have "timerInvariant ?s" using assms by (simp add: timerInvariant_def)
  then have "timerInvariant (createTimeout options (clearTimeout ?s))"
    by (rule timerInvariant_rearm)
  then show ?thesis using Inr unfolding onMessage_def
    by (simp add: Let_def timerInvariant_def)
qed

lemma timerInvariant_onMessage_pow:
  "timerInvariant s \<Longrightarrow> timerInvariant (((onMessage options msg) ^^ n) s)"
  by (induction n) (simp_all add: timerInvariant_onMessage)

lemma timerInvariant_onError_pow:
  "timerInvariant s \<Longrightarrow> timerInvariant (((onError options err) ^^ n) s)"
  by (induction n) (simp_all add: onError_def timerInvariant_def)

lemma timerInvariant_close: "timerInvariant s \<Longrightarrow> timerInvariant (close s)"
  by (auto simp add: timerInvariant_def close_def es_close_def clearTimeout_def list_all_iff
      split: option.splits)

lemma timerInvariant_due:
  assumes "timerInvariant s" and "map_of (timers s) i = Some d"
  shows "timers s = [(i, d)]"
  using assms by (auto simp add: timerInvariant_def split: if_splits)

lemma timerInvariant_step:
  assumes "timerInvariant s" and "step construct options ev s = Some s'"
  shows "timerInvariant s'"
proof (cases ev)
  case (TimerDue i)
  then obtain d where d: "map_of (timers s) i = Some d"
    and s': "s' = timerCallback construct options
      (s\<lparr>timers := filter (\<lambda>p. fst p \<noteq> i) (timers s), clock := d\<rparr>)"
    using assms(2) by (auto simp: step_def split: option.splits if_splits)
  have "timers s = [(i, d)]" using assms(1) d by (rule timerInvariant_due)
  then show ?thesis unfolding s' using assms(1)
    by (intro timerInvariant_timerCallback) (simp_all add: timerInvariant_def)
next
  case (MessageArrives t c msg)
  then have "s' = ((onMessage options msg) ^^ count_list (listening s) c) (s\<lparr>clock := t\<rparr>)"
    using assms(2) by (auto simp: step_def split: if_splits)
  moreover have "timerInvariant (s\<lparr>clock := t\<rparr>)"
    using assms(1) by (simp add: timerInvariant_def)
  ultimately show ?thesis by (simp add: timerInvariant_onMessage_pow)
next
  case (ErrorArrives t c err)
  then have "s' = ((onError options err) ^^ count_list (listening s) c) (s\<lparr>clock := t\<rparr>)"
    using assms(2) by (auto simp: step_def split: if_splits)
  moreover have "timerInvariant (s\<lparr>clock := t\<rparr>)"
    using assms(1) by (simp add: timerInvariant_def)
  ultimately show ?thesis by (simp add: timerInvariant_onError_pow)
next
  case (CloseCalled t)
  then have "s' = close (s\<lparr>clock := t\<rparr>)"
    using assms(2) by (auto simp: step_def split: if_splits)
  moreover have "timerInvariant (s\<lparr>clock := t\<rparr>)"
    using assms(1) by (simp add: timerInvariant_def)
  ultimately show ?thesis by (simp add: timerInvariant_close)
qed

lemma timerInvariant_run:
  assumes "timerInvariant s" and "run construct options evs s = Some s'"
  shows "timerInvariant s'"
  using assms
proof (induction evs arbitrary: s)
  case Nil
  then show ?case by simp
next
  case (Cons ev evs)
  then obtain s1 where "step construct options ev s = Some s1"
    and "run construct options evs s1 = Some s'"
    by (auto split: option.splits)
  then show ?case using Cons.IH Cons.prems(1) timerInvariant_step by blast
qed

lemma stream_start:
  assumes "stream construct version options b now = Inr s"
  shows "timerInvariant s"
    and "timers s = [(0, now + reconnectDelay options)]"
    and "list_all (genuine construct []) (onerrorCalls s)"
proof -
  obtain b' where "checkFilter b = Inr b'"
    using assms by (cases "checkFilter b") (simp_all add: stream_def)
  then have s: "s = createEventSource construct options
            \<lparr>es = None, attempts = [], closed = [], listening = [], timeout = None,
             timers = [], nextTimer = 0,
             streamUrl = setQuery ''X-Client-Version'' version
                           (setQuery ''X-Client-Name'' ''js-stellar-sdk'' (url b')),
             clock = now, onerrorCalls = [], onmessageCalls = [], uncaught = []\<rparr>"
    using assms by (simp add: stream_def)
  show "timerInvariant s" unfolding s
    by (rule timerInvariant_createEventSource) simp_all
  show "timers s = [(0, now + reconnectDelay options)]" unfolding s
    by (simp add: createEventSource_def createTimeout_def Let_def split: option.splits)
  show "list_all (genuine construct []) (onerrorCalls s)" unfolding s
    by (auto simp add: onerrorCalls_createEventSource genuine_def split: option.splits)
qed

lemma clock_onMessage: "clock (onMessage options msg s) = clock s"
proof (cases "if truthy (getProp (raw msg) ''data'')
            then (case parsed msg of Inl e \<Rightarrow> Inl e | Inr json \<Rightarrow> parseRecord json)
            else Inr (raw msg)")
  case (Inl e)
  then show ?thesis unfolding onMessage_def by simp
next
  case (Inr result)
  then show ?thesis unfolding onMessage_def
    by (simp add: Let_def createTimeout_def clearTimeout_def split: option.splits)
qed

lemma timers_onMessage:
  assumes "timerInvariant s"
  shows "timers (onMessage options msg s) = timers s
       \<or> timers (onMessage options msg s) = [(nextTimer s, clock s + reconnectDelay options)]"
proof (cases "if truthy (getProp (raw msg) ''data'')
            then (case parsed msg of Inl e \<Rightarrow> Inl e | Inr json \<Rightarrow> parseRecord json)
            else Inr (raw msg)")
  case (Inl e)
  then show ?thesis unfolding onMessage_def by simp
next
  case (Inr result)
  let ?s = "if truthy (getProp result ''paging_token'')
            then s\<lparr>streamUrl := setQuery ''cursor''
                   (cursorText (getProp result ''paging_token'')) (streamUrl s)\<rparr>
            else s"
  have "timerInvariant ?s" using assms by (simp add: timerInvariant_def)
  then have "timers (createTimeout options (clearTimeout ?s)) =
           [(nextTimer ?s, clock ?s + reconnectDelay options)]"
    by (rule timerInvariant_rearm)
  then show ?thesis using Inr unfolding onMessage_def by (simp add: Let_def)
qed

lemma timers_onMessage_pow:
  assumes "timerInvariant s"
  shows "timers (((onMessage options msg) ^^ n) s) = timers s
       \<or> (\<exists>k. timers (((onMessage options msg) ^^ n) s) = [(k, clock s + reconnectDelay options)])"
proof (induction n)
  case 0
  then show ?case by simp
next
  case (Suc n)
  let ?s = "((onMessage options msg) ^^ n) s"
  have inv: "timerInvariant ?s" using assms by (rule timerInvariant_onMessage_pow)
  have clk: "clock ?s = clock s" by (induction n) (simp_all add: clock_onMessage)
  from timers_onMessage [OF inv, where options = options and msg = msg] Suc clk
  show ?case by auto
qed


lemma stream_refStarted:
  "stream neverThrows ''5.0.0'' refOptions (AccountCallBuilder_new refUrl) 0 = Inr refStarted"
  by (simp add: stream_def checkFilter_def AccountCallBuilder_new_def CallBuilder_new_def
      createEventSource_def createTimeout_def neverThrows_def refOptions_def reconnectDelay_def
      Let_def refStarted_def refStreamUrl_def setQuery_def refUrl_def)

lemma onMessage_refStarted:
  "onMessage refOptions refMessage (refStarted\<lparr>clock := 5000\<rparr>) = refStreaming"
proof -
  have p: "parseRecord (JObj [(''id'', JStr ''1''), (''paging_token'', JStr ''42'')])
      = Inr (JObj [(''id'', JStr ''1''), (''paging_token'', JStr ''42'')])"
    by (simp add: parseRecord_JObj lookup_def)
  show ?thesis
    unfolding onMessage_def
    by (simp add: refMessage_def p getProp_def lookup_def Let_def cursorText_def
        createTimeout_def clearTimeout_def refStarted_def refStreaming_def refOptions_def
        reconnectDelay_def refStreamUrl_def setQuery_def)
qed

lemma run_refStarted:
  "run neverThrows refOptions [MessageArrives 5000 0 refMessage] refStarted = Some refStreaming"
proof -
  have "deliverable 5000 0 refStarted" "count_list (listening refStarted) 0 = Suc 0"
    by (simp_all add: deliverable_def refStarted_def)
  then show ?thesis
    by (simp add: step_def onMessage_refStarted)
qed

lemma step_refStreaming:
  "step neverThrows refOptions (TimerDue 1) refStreaming = Some refReconnected"
  by (simp add: step_def timerCallback_def es_close_def createEventSource_def createTimeout_def
      neverThrows_def refOptions_def reconnectDelay_def Let_def refStreaming_def
      refReconnected_def refStreamUrl_def)



end
